theory Spec2Isabelle
  imports Main
begin

section \<open>The login automation of scripts/simple\_dndbeyond\_auth.py\<close>

text \<open>
  The script drives a browser through a sign-in page. Everything it does to the outside
  (urlopen, the Selenium driver, sleep, input) is an external call that either returns or
  raises. The model keeps the object \<open>self\<close>, the list of external calls made so far and
  the lines printed, and asks an environment for the outcome of every external call. The
  environment is indexed by the number of external calls already made, so the page may
  answer the same question differently at different moments of a run.
\<close>

subsection \<open>Exceptions\<close>

text \<open>
  The classes the script names in its except clauses, and those that pass them.
  \<open>HTTPError\<close> is a subclass of \<open>URLError\<close>; \<open>TimeoutException\<close> and
  \<open>NoSuchElementException\<close> are subclasses of \<open>WebDriverException\<close>;
  \<open>KeyboardInterrupt\<close> and \<open>SystemExit\<close> derive from BaseException only, every other
  class from Exception. \<open>OSError\<close> stands for an OSError that is no URLError (a socket
  that times out, a connection that is reset), \<open>OtherException\<close> for any further
  subclass of Exception. An exception carries its class and the text that \<open>str\<close> gives.
\<close>

datatype exc_class =
    URLError | HTTPError | OSError
  | WebDriverException | TimeoutException | NoSuchElementException
  | AttributeError | OtherException
  | KeyboardInterrupt | SystemExit

datatype py_exception = Exc (cls: exc_class) (msg: string)

fun is_Exception :: "exc_class \<Rightarrow> bool" where
  "is_Exception KeyboardInterrupt = False"
| "is_Exception SystemExit = False"
| "is_Exception _ = True"

fun is_URLError :: "exc_class \<Rightarrow> bool" where
  "is_URLError URLError = True"
| "is_URLError HTTPError = True"
| "is_URLError _ = False"

fun is_WebDriverException :: "exc_class \<Rightarrow> bool" where
  "is_WebDriverException WebDriverException = True"
| "is_WebDriverException TimeoutException = True"
| "is_WebDriverException NoSuchElementException = True"
| "is_WebDriverException _ = False"

subsection \<open>External calls, the environment and the state\<close>

type_synonym element = nat

datatype strategy = XPATH | CSS_SELECTOR

text \<open>The options object built by \<open>setup_driver\<close>.\<close>

datatype option_value = Switches "string list" | Flag bool

record edge_options =
  arguments :: "string list"
  experimental_options :: "(string \<times> option_value) list"

datatype call =
    Urlopen string nat
  | Install
  | Edge edge_options
  | ExecuteScript string
  | ImplicitlyWait nat
  | SetPageLoadTimeout nat
  | Get string
  | SaveScreenshot string
  | UntilClickable strategy string nat
  | FindElement strategy string
  | Click element
  | Clear element
  | SendKeys element string
  | CurrentUrl
  | Sleep nat
  | Input string
  | Quit

text \<open>
  The environment. The first argument of every field is the number of external calls made
  before this one. \<open>urlopen\<close> gives the status code that \<open>response.getcode()\<close> reads;
  \<open>until_clickable\<close> is \<open>WebDriverWait(driver, timeout).until(EC.element_to_be_clickable((by, value)))\<close>,
  which returns the element or raises (TimeoutException when the budget runs out);
  \<open>action\<close> answers every call whose result the script does not read: \<open>None\<close> when it
  returns, \<open>Some e\<close> when it raises \<open>e\<close>.
\<close>

record env =
  urlopen :: "nat \<Rightarrow> string \<Rightarrow> nat \<Rightarrow> py_exception + int"
  until_clickable :: "nat \<Rightarrow> strategy \<Rightarrow> string \<Rightarrow> nat \<Rightarrow> py_exception + element"
  find_element :: "nat \<Rightarrow> strategy \<Rightarrow> string \<Rightarrow> py_exception + element"
  current_url :: "nat \<Rightarrow> py_exception + string"
  action :: "nat \<Rightarrow> call \<Rightarrow> py_exception option"

text \<open>
  The object \<open>self\<close> (\<open>driver\<close> is True once \<open>self.driver\<close> holds a driver, False
  while it is None), with the external calls made so far, oldest first, and the lines
  printed. The two credential strings are literals in \<open>__init__\<close>; they are parameters
  here, and nothing below depends on their values.
\<close>

record state =
  username :: string
  password :: string
  login_url :: string
  driver :: bool
  headless :: bool
  calls :: "call list"
  out :: "string list"

definition init :: "string \<Rightarrow> string \<Rightarrow> bool \<Rightarrow> state" where
  "init u p h =
     \<lparr>username = u, password = p,
      login_url = ''https://www.dndbeyond.com/sign-in?returnUrl=https://www.dndbeyond.com/sources'',
      driver = False, headless = h, calls = [], out = []\<rparr>"

definition now :: "state \<Rightarrow> nat" where
  "now s = length (calls s)"

subsection \<open>Statements: return, raise, sequencing, try\<close>

type_synonym 'a prog = "state \<Rightarrow> (py_exception + 'a) \<times> state"

definition ret :: "'a \<Rightarrow> 'a prog" where
  "ret x s = (Inr x, s)"

definition raise :: "py_exception \<Rightarrow> 'a prog" where
  "raise e s = (Inl e, s)"

definition andthen :: "'a prog \<Rightarrow> ('a \<Rightarrow> 'b prog) \<Rightarrow> 'b prog" where
  "andthen m f s = (case m s of (Inl e, s') \<Rightarrow> (Inl e, s') | (Inr x, s') \<Rightarrow> f x s')"

text \<open>\<open>try: m except ... as e: h e\<close>; a handler re-raises what no clause matches.\<close>

definition try_except :: "'a prog \<Rightarrow> (py_exception \<Rightarrow> 'a prog) \<Rightarrow> 'a prog" where
  "try_except m h s = (case m s of (Inl e, s') \<Rightarrow> h e s' | (Inr x, s') \<Rightarrow> (Inr x, s'))"

text \<open>
  \<open>try: m finally: fin\<close>: \<open>fin\<close> runs however \<open>m\<close> ends; what \<open>m\<close> returned or raised
  stands unless \<open>fin\<close> raises itself.
\<close>

definition try_finally :: "'a prog \<Rightarrow> unit prog \<Rightarrow> 'a prog" where
  "try_finally m fin s =
     (case m s of (r, s') \<Rightarrow>
        (case fin s' of (Inl e, s'') \<Rightarrow> (Inl e, s'') | (Inr _, s'') \<Rightarrow> (r, s'')))"

text \<open>
  \<open>print\<close>, which always returns. The pictographs and the newline that open some of
  the script's lines are left out of the strings, which are ASCII here.
\<close>

definition print :: "string \<Rightarrow> unit prog" where
  "print m s = (Inr (), s\<lparr>out := out s @ [m]\<rparr>)"

definition record_call :: "call \<Rightarrow> state \<Rightarrow> state" where
  "record_call c s = s\<lparr>calls := calls s @ [c]\<rparr>"

text \<open>An external call whose result is not read.\<close>

definition perform :: "env \<Rightarrow> call \<Rightarrow> unit prog" where
  "perform env c s =
     (case action env (now s) c of
        Some e \<Rightarrow> (Inl e, record_call c s)
      | None \<Rightarrow> (Inr (), record_call c s))"

text \<open>
  The attribute or method \<open>attr\<close> of \<open>self.driver\<close>: while \<open>self.driver\<close> is None,
  Python raises AttributeError before any call reaches a browser.
\<close>

definition on_driver :: "string \<Rightarrow> 'a prog \<Rightarrow> 'a prog" where
  "on_driver attr m s =
     (if driver s then m s
      else (Inl (Exc AttributeError
              (CHR 0x27 # ''NoneType' object has no attribute '' @ CHR 0x27 # attr @ [CHR 0x27])),
            s))"

definition call_urlopen :: "env \<Rightarrow> string \<Rightarrow> nat \<Rightarrow> int prog" where
  "call_urlopen env url timeout s =
     (urlopen env (now s) url timeout, record_call (Urlopen url timeout) s)"

definition call_until_clickable :: "env \<Rightarrow> strategy \<Rightarrow> string \<Rightarrow> nat \<Rightarrow> element prog" where
  "call_until_clickable env b v timeout =
     on_driver ''find_element'' (\<lambda>s. (until_clickable env (now s) b v timeout,
                     record_call (UntilClickable b v timeout) s))"

definition call_find_element :: "env \<Rightarrow> strategy \<Rightarrow> string \<Rightarrow> element prog" where
  "call_find_element env b v =
     on_driver ''find_element''
       (\<lambda>s. (find_element env (now s) b v, record_call (FindElement b v) s))"

definition call_current_url :: "env \<Rightarrow> string prog" where
  "call_current_url env =
     on_driver ''current_url'' (\<lambda>s. (current_url env (now s), record_call CurrentUrl s))"

text \<open>Python's \<open>p in s\<close> on strings: \<open>p\<close> occurs in \<open>s\<close> as a contiguous piece.\<close>

fun starts_with :: "string \<Rightarrow> string \<Rightarrow> bool" where
  "starts_with s [] = True"
| "starts_with [] (c # p) = False"
| "starts_with (d # s) (c # p) = (d = c \<and> starts_with s p)"

fun str_in :: "string \<Rightarrow> string \<Rightarrow> bool" where
  "str_in p [] = (p = [])"
| "str_in p (c # s) = (starts_with (c # s) p \<or> str_in p s)"

subsection \<open>Connectivity checks\<close>

definition check_internet_connection :: "env \<Rightarrow> bool prog" where
  "check_internet_connection env =
     try_except
       (andthen (print ''Checking internet connectivity...'') (\<lambda>_.
        andthen (call_urlopen env ''https://www.google.com'' 10) (\<lambda>code.
        if code = 200
        then andthen (print ''Internet connection working'') (\<lambda>_. ret True)
        else ret False)))
       (\<lambda>e. if is_URLError (cls e)
            then andthen (print (''Internet connection failed: '' @ msg e)) (\<lambda>_. ret False)
            else if is_Exception (cls e)
            then andthen (print (''Network check failed: '' @ msg e)) (\<lambda>_. ret False)
            else raise e)"

definition check_dndbeyond_accessibility :: "env \<Rightarrow> bool prog" where
  "check_dndbeyond_accessibility env =
     try_except
       (andthen (print ''Checking D&D Beyond accessibility...'') (\<lambda>_.
        andthen (call_urlopen env ''https://www.dndbeyond.com'' 15) (\<lambda>code.
        if code = 200
        then andthen (print ''D&D Beyond is accessible'') (\<lambda>_. ret True)
        else ret False)))
       (\<lambda>e. if is_URLError (cls e)
            then andthen (print (''Cannot reach D&D Beyond: '' @ msg e)) (\<lambda>_. ret False)
            else if is_Exception (cls e)
            then andthen (print (''D&D Beyond check failed: '' @ msg e)) (\<lambda>_. ret False)
            else raise e)"

subsection \<open>Session bootstrap\<close>

definition read_self :: "(state \<Rightarrow> 'a) \<Rightarrow> 'a prog" where
  "read_self f s = (Inr (f s), s)"

text \<open>\<open>self.driver = ...\<close> with the driver that \<open>webdriver.Edge\<close> returned.\<close>

definition assign_driver :: "unit prog" where
  "assign_driver s = (Inr (), s\<lparr>driver := True\<rparr>)"

definition build_options :: "bool \<Rightarrow> edge_options" where
  "build_options h =
     \<lparr>arguments =
        (if h then [''--headless''] else []) @
        [''--no-sandbox'', ''--disable-dev-shm-usage'',
         ''--disable-blink-features=AutomationControlled'', ''--disable-web-security'',
         ''--allow-running-insecure-content'', ''--disable-extensions''],
      experimental_options =
        [(''excludeSwitches'', Switches [''enable-automation'']),
         (''useAutomationExtension'', Flag False)]\<rparr>"

definition setup_driver :: "env \<Rightarrow> bool prog" where
  "setup_driver env =
     try_except
       (andthen (print ''Setting up Edge WebDriver...'') (\<lambda>_.
        andthen (read_self headless) (\<lambda>h.
        andthen (print ''Downloading/updating Edge WebDriver...'') (\<lambda>_.
        andthen (perform env Install) (\<lambda>_.
        andthen (print ''Starting Edge browser...'') (\<lambda>_.
        andthen (perform env (Edge (build_options h))) (\<lambda>_.
        andthen assign_driver (\<lambda>_.
        andthen (on_driver ''execute_script'' (perform env (ExecuteScript
          ''Object.defineProperty(navigator, 'webdriver', {get: () => undefined})''))) (\<lambda>_.
        andthen (on_driver ''implicitly_wait'' (perform env (ImplicitlyWait 10))) (\<lambda>_.
        andthen (on_driver ''set_page_load_timeout'' (perform env (SetPageLoadTimeout 30))) (\<lambda>_.
        andthen (print ''Edge WebDriver setup complete'') (\<lambda>_.
        ret True))))))))))))
       (\<lambda>e. if is_WebDriverException (cls e)
            then andthen (print (''WebDriver error: '' @ msg e)) (\<lambda>_. ret False)
            else if is_Exception (cls e)
            then andthen (print (''Error setting up driver: '' @ msg e)) (\<lambda>_. ret False)
            else raise e)"

subsection \<open>Finding elements\<close>

text \<open>\<open>None\<close> is Python's None; a WebElement is always truthy.\<close>

definition wait_for_element :: "env \<Rightarrow> strategy \<Rightarrow> string \<Rightarrow> nat \<Rightarrow> element option prog" where
  "wait_for_element env b v timeout =
     try_except
       (andthen (call_until_clickable env b v timeout) (\<lambda>element. ret (Some element)))
       (\<lambda>e. if cls e = TimeoutException
            then andthen (print (''Timeout waiting for element: '' @ v)) (\<lambda>_. ret None)
            else raise e)"

definition possible_selectors :: "string list" where
  "possible_selectors =
     [''//button[contains(text(), 'Sign in with Wizards')]'',
      ''//a[contains(text(), 'Sign in with Wizards')]'',
      ''//button[contains(@class, 'wizards')]'',
      ''//a[contains(@class, 'wizards')]'',
      ''//button[contains(text(), 'Wizards')]'',
      ''//a[contains(text(), 'Wizards')]'']"

text \<open>
  The for loops whose body may return from the function give \<open>Some b\<close> when the body
  executed \<open>return b\<close> and \<open>None\<close> when the loop ran to its end.
\<close>

fun wizards_loop :: "env \<Rightarrow> string list \<Rightarrow> bool option prog" where
  "wizards_loop env [] = ret None"
| "wizards_loop env (selector # rest) =
     andthen
       (try_except
          (andthen (wait_for_element env XPATH selector 5) (\<lambda>element.
           case element of
             Some el \<Rightarrow>
               andthen (print ''Found 'Sign in with Wizards' button'') (\<lambda>_.
               andthen (perform env (Click el)) (\<lambda>_.
               ret (Some True)))
           | None \<Rightarrow> ret None))
          (\<lambda>e. if is_Exception (cls e) then ret None else raise e))
       (\<lambda>returned. case returned of
          Some b \<Rightarrow> ret (Some b)
        | None \<Rightarrow> wizards_loop env rest)"

definition click_sign_in_with_wizards :: "env \<Rightarrow> bool prog" where
  "click_sign_in_with_wizards env =
     try_except
       (andthen (wizards_loop env possible_selectors) (\<lambda>returned.
        case returned of
          Some b \<Rightarrow> ret b
        | None \<Rightarrow>
            andthen (print ''Could not find 'Sign in with Wizards' button'') (\<lambda>_.
            ret False)))
       (\<lambda>e. if is_Exception (cls e)
            then andthen (print (''Error clicking Sign in with Wizards: '' @ msg e)) (\<lambda>_.
                 ret False)
            else raise e)"

subsection \<open>Credential entry\<close>

definition username_selectors :: "string list" where
  "username_selectors =
     [''input[name='username']'', ''input[name='email']'', ''input[type='email']'',
      ''input[id*='username']'', ''input[id*='email']'']"

definition password_selectors :: "string list" where
  "password_selectors =
     [''input[name='password']'', ''input[type='password']'', ''input[id*='password']'']"

text \<open>
  The loop of \<open>enter_credentials\<close>, the same for both fields: the field variable starts
  as None, takes the result of each wait, and the loop breaks at the first element.
\<close>

fun field_loop :: "env \<Rightarrow> string list \<Rightarrow> element option prog" where
  "field_loop env [] = ret None"
| "field_loop env (selector # rest) =
     andthen (wait_for_element env CSS_SELECTOR selector 5) (\<lambda>field.
     case field of
       Some el \<Rightarrow> ret (Some el)
     | None \<Rightarrow> field_loop env rest)"

definition enter_credentials :: "env \<Rightarrow> bool prog" where
  "enter_credentials env =
     try_except
       (andthen (field_loop env username_selectors) (\<lambda>username_field.
        case username_field of
          None \<Rightarrow> andthen (print ''Could not find username field'') (\<lambda>_. ret False)
        | Some uf \<Rightarrow>
            andthen (perform env (Clear uf)) (\<lambda>_.
            andthen (read_self username) (\<lambda>u.
            andthen (perform env (SendKeys uf u)) (\<lambda>_.
            andthen (print ''Entered username'') (\<lambda>_.
            andthen (field_loop env password_selectors) (\<lambda>password_field.
            case password_field of
              None \<Rightarrow> andthen (print ''Could not find password field'') (\<lambda>_. ret False)
            | Some pf \<Rightarrow>
                andthen (perform env (Clear pf)) (\<lambda>_.
                andthen (read_self password) (\<lambda>p.
                andthen (perform env (SendKeys pf p)) (\<lambda>_.
                andthen (print ''Entered password'') (\<lambda>_.
                ret True)))))))))))
       (\<lambda>e. if is_Exception (cls e)
            then andthen (print (''Error entering credentials: '' @ msg e)) (\<lambda>_. ret False)
            else raise e)"

subsection \<open>Submission\<close>

definition submit_selectors :: "string list" where
  "submit_selectors =
     [''button[type='submit']'', ''input[type='submit']'',
      ''//button[contains(text(), 'Sign In')]'',
      ''//button[contains(text(), 'Login')]'',
      ''//button[contains(text(), 'Log In')]'',
      ''//input[contains(@value, 'Sign In')]'']"

fun submit_loop :: "env \<Rightarrow> string list \<Rightarrow> bool option prog" where
  "submit_loop env [] = ret None"
| "submit_loop env (selector # rest) =
     andthen
       (try_except
          (andthen
             (if starts_with selector ''//''
              then wait_for_element env XPATH selector 5
              else wait_for_element env CSS_SELECTOR selector 5) (\<lambda>submit_btn.
           case submit_btn of
             Some el \<Rightarrow>
               andthen (print ''Found submit button, clicking...'') (\<lambda>_.
               andthen (perform env (Click el)) (\<lambda>_.
               ret (Some True)))
           | None \<Rightarrow> ret None))
          (\<lambda>e. if is_Exception (cls e) then ret None else raise e))
       (\<lambda>returned. case returned of
          Some b \<Rightarrow> ret (Some b)
        | None \<Rightarrow> submit_loop env rest)"

definition submit_login :: "env \<Rightarrow> bool prog" where
  "submit_login env =
     try_except
       (andthen (submit_loop env submit_selectors) (\<lambda>returned.
        case returned of
          Some b \<Rightarrow> ret b
        | None \<Rightarrow> andthen (print ''Could not find submit button'') (\<lambda>_. ret False)))
       (\<lambda>e. if is_Exception (cls e)
            then andthen (print (''Error submitting login: '' @ msg e)) (\<lambda>_. ret False)
            else raise e)"

subsection \<open>Outcome check\<close>

definition success_indicators :: "string list" where
  "success_indicators = [''sources'', ''dashboard'', ''my-characters'']"

definition user_elements :: "string list" where
  "user_elements =
     [''//a[contains(@class, 'user')]'',
      ''//button[contains(@class, 'user')]'',
      ''//div[contains(@class, 'user-menu')]'',
      ''//span[contains(@class, 'username')]'']"

fun indicator_loop :: "string \<Rightarrow> string list \<Rightarrow> bool option prog" where
  "indicator_loop current [] = ret None"
| "indicator_loop current (indicator # rest) =
     (if str_in indicator current
      then andthen (print (''Login successful! Redirected to: '' @ current)) (\<lambda>_.
           ret (Some True))
      else indicator_loop current rest)"

fun user_elements_loop :: "env \<Rightarrow> string list \<Rightarrow> bool option prog" where
  "user_elements_loop env [] = ret None"
| "user_elements_loop env (selector # rest) =
     andthen
       (try_except
          (andthen (call_find_element env XPATH selector) (\<lambda>element.
           andthen (print ''Found user element, login appears successful'') (\<lambda>_.
           ret (Some True))))
          (\<lambda>e. if cls e = NoSuchElementException then ret None else raise e))
       (\<lambda>returned. case returned of
          Some b \<Rightarrow> ret (Some b)
        | None \<Rightarrow> user_elements_loop env rest)"

definition check_login_success :: "env \<Rightarrow> bool prog" where
  "check_login_success env =
     try_except
       (andthen (perform env (Sleep 3)) (\<lambda>_.
        andthen (call_current_url env) (\<lambda>current.
        andthen (print (''Current URL: '' @ current)) (\<lambda>_.
        andthen (indicator_loop current success_indicators) (\<lambda>returned.
        case returned of
          Some b \<Rightarrow> ret b
        | None \<Rightarrow>
            andthen (user_elements_loop env user_elements) (\<lambda>returned.
            case returned of
              Some b \<Rightarrow> ret b
            | None \<Rightarrow>
                if str_in ''sign-in'' current \<or> str_in ''login'' current
                then andthen (print ''Still on login page, login may have failed'') (\<lambda>_.
                     ret False)
                else andthen (print ''Login status unclear'') (\<lambda>_.
                     ret False)))))))
       (\<lambda>e. if is_Exception (cls e)
            then andthen (print (''Error checking login success: '' @ msg e)) (\<lambda>_.
                 ret False)
            else raise e)"

subsection \<open>The whole attempt\<close>

definition authenticate :: "env \<Rightarrow> bool prog" where
  "authenticate env =
     try_except
       (andthen (print ''Starting D&D Beyond authentication...'') (\<lambda>_.
        andthen (print (replicate 50 CHR ''='')) (\<lambda>_.
        andthen (check_internet_connection env) (\<lambda>internet.
        if \<not> internet
        then andthen (print ''No internet connection available'') (\<lambda>_. ret False)
        else
        andthen (check_dndbeyond_accessibility env) (\<lambda>accessible.
        if \<not> accessible
        then andthen (print ''D&D Beyond is not accessible'') (\<lambda>_. ret False)
        else
        andthen (setup_driver env) (\<lambda>ready.
        if \<not> ready
        then andthen (print ''Failed to setup WebDriver'') (\<lambda>_. ret False)
        else
        andthen (read_self login_url) (\<lambda>url.
        andthen (print (''Navigating to: '' @ url)) (\<lambda>_.
        andthen
          (try_except
             (andthen (on_driver ''get'' (perform env (Get url))) (\<lambda>_.
              andthen (print ''Successfully loaded login page'') (\<lambda>_.
              ret None)))
             (\<lambda>e. if is_WebDriverException (cls e)
                  then andthen (print (''Failed to load login page: '' @ msg e)) (\<lambda>_.
                       ret (Some False))
                  else raise e)) (\<lambda>returned.
        case returned of
          Some b \<Rightarrow> ret b
        | None \<Rightarrow>
        andthen (perform env (Sleep 3)) (\<lambda>_.
        andthen
          (try_except
             (andthen (on_driver ''save_screenshot'' (perform env (SaveScreenshot ''login_page.png''))) (\<lambda>_.
              print ''Saved screenshot of login page''))
             (\<lambda>e. if is_Exception (cls e)
                  then print (''Could not save screenshot: '' @ msg e)
                  else raise e)) (\<lambda>_.
        andthen (click_sign_in_with_wizards env) (\<lambda>clicked.
        andthen
          (if \<not> clicked
           then andthen (print ''Failed to click 'Sign in with Wizards' button'') (\<lambda>_.
                print ''Attempting to continue anyway...'')
           else ret ()) (\<lambda>_.
        andthen (perform env (Sleep 2)) (\<lambda>_.
        andthen (enter_credentials env) (\<lambda>entered.
        if \<not> entered
        then andthen (print ''Failed to enter credentials'') (\<lambda>_. ret False)
        else
        andthen (submit_login env) (\<lambda>submitted.
        if \<not> submitted
        then andthen (print ''Failed to submit login form'') (\<lambda>_. ret False)
        else
        andthen (check_login_success env) (\<lambda>success.
        if success
        then andthen (print ''Authentication successful!'') (\<lambda>_. ret True)
        else andthen (print ''Authentication failed!'') (\<lambda>_. ret False))))))))))))))))))
       (\<lambda>e. if is_WebDriverException (cls e)
            then andthen (print (''WebDriver error during authentication: '' @ msg e)) (\<lambda>_.
                 ret False)
            else if is_Exception (cls e)
            then andthen (print (''Error during authentication: '' @ msg e)) (\<lambda>_.
                 ret False)
            else raise e)"

definition close :: "env \<Rightarrow> unit prog" where
  "close env s = (if driver s then perform env Quit s else ret () s)"

text \<open>
  \<open>main\<close> builds the object with \<open>headless=False\<close> and runs the attempt inside
  \<open>try ... finally: auth.close()\<close>.
\<close>

definition main :: "env \<Rightarrow> string \<Rightarrow> string \<Rightarrow> (py_exception + unit) \<times> state" where
  "main env u p =
     try_finally
       (try_except
          (andthen (authenticate env) (\<lambda>success.
           if success
           then andthen (print ''Authentication successful!'') (\<lambda>_.
                andthen (print ''You can now continue with your automation tasks...'') (\<lambda>_.
                perform env (Input ''Press Enter to close the browser...'')))
           else print ''Authentication failed!''))
          (\<lambda>e. if cls e = KeyboardInterrupt
               then print ''Authentication interrupted by user''
               else if is_Exception (cls e)
               then print (''Unexpected error: '' @ msg e)
               else raise e))
       (close env)
       (init u p False)"

subsection \<open>Network conditions and sample environments\<close>

text \<open>
  What \<open>urlopen\<close> does under a network condition: a response arrives and its status
  code is read, or the call raises an exception of a subclass of Exception (URLError for
  a DNS failure, a refused connection or a timeout, HTTPError for an error status,
  OSError for a socket that times out). An interrupt from the keyboard is no network
  condition.
\<close>

definition network_outcome :: "py_exception + int \<Rightarrow> bool" where
  "network_outcome r = (case r of Inl e \<Rightarrow> is_Exception (cls e) | Inr code \<Rightarrow> True)"

text \<open>
  A reachable network and a browser that starts, on a page where nothing is clickable,
  no element is found and the address stays the sign-in page.
\<close>

definition blank_env :: env where
  "blank_env =
     \<lparr>urlopen = (\<lambda>t url timeout. Inr 200),
      until_clickable = (\<lambda>t b v timeout. Inl (Exc TimeoutException ''Message: '')),
      find_element = (\<lambda>t b v. Inl (Exc NoSuchElementException ''no such element'')),
      current_url = (\<lambda>t. Inr ''https://www.dndbeyond.com/sign-in''),
      action = (\<lambda>t c. None)\<rparr>"

definition offline_env :: env where
  "offline_env =
     blank_env\<lparr>urlopen := (\<lambda>t url timeout. Inl (Exc URLError ''getaddrinfo failed''))\<rparr>"

subsection \<open>Reading a run\<close>

fun is_Edge :: "call \<Rightarrow> bool" where
  "is_Edge (Edge opts) = True"
| "is_Edge _ = False"

text \<open>
  \<open>started_in env t cs\<close>: among the calls \<open>cs\<close>, the first of them made when \<open>t\<close>
  calls had been made before, some \<open>webdriver.Edge(...)\<close> returned a driver.
\<close>

fun started_in :: "env \<Rightarrow> nat \<Rightarrow> call list \<Rightarrow> bool" where
  "started_in env t [] = False"
| "started_in env t (c # cs) =
     ((is_Edge c \<and> action env t c = None) \<or> started_in env (Suc t) cs)"

definition session_created :: "env \<Rightarrow> call list \<Rightarrow> bool" where
  "session_created env cs = started_in env 0 cs"

text \<open>
  A statement keeps track of the session when it never calls \<open>quit\<close> and leaves
  \<open>self.driver\<close> set exactly if it was set before or a browser was started meanwhile.
\<close>

definition tracks_session :: "env \<Rightarrow> 'a prog \<Rightarrow> bool" where
  "tracks_session env m =
     (\<forall>s. \<exists>ext. calls (snd (m s)) = calls s @ ext \<and> Quit \<notin> set ext \<and>
        driver (snd (m s)) = (driver s \<or> started_in env (length (calls s)) ext))"

text \<open>How a wait or a lookup can end without an element.\<close>

definition timed_out :: "py_exception + element \<Rightarrow> bool" where
  "timed_out r = (case r of Inl e \<Rightarrow> cls e = TimeoutException | Inr el \<Rightarrow> False)"

definition not_found :: "py_exception + element \<Rightarrow> bool" where
  "not_found r = (case r of Inl e \<Rightarrow> cls e = NoSuchElementException | Inr el \<Rightarrow> False)"

text \<open>The strategy \<open>submit_login\<close> picks for a selector.\<close>

definition submit_strategy :: "string \<Rightarrow> strategy" where
  "submit_strategy selector = (if starts_with selector ''//'' then XPATH else CSS_SELECTOR)"

text \<open>The object once a driver is assigned, before any call.\<close>

definition session0 :: state where
  "session0 = (init ''user'' ''secret'' False)\<lparr>driver := True\<rparr>"

text \<open>The line \<open>wait_for_element\<close> prints when a wait times out.\<close>

definition timeout_line :: "string \<Rightarrow> string" where
  "timeout_line v = ''Timeout waiting for element: '' @ v"

text \<open>
  After a rejected login the browser is still on the address the script opened, whose
  \<open>returnUrl\<close> parameter names the sources page.
\<close>

definition stuck_env :: env where
  "stuck_env =
     blank_env\<lparr>current_url := (\<lambda>t.
       Inr ''https://www.dndbeyond.com/sign-in?returnUrl=https://www.dndbeyond.com/sources'')\<rparr>"

text \<open>
  A complete form (identifier, password and submit control under the first selector of
  each list, no identity-provider button) on a site that rejects the login: the address
  never leaves the one the script opened and no user element appears.
\<close>

definition rejected_login_env :: env where
  "rejected_login_env =
     stuck_env\<lparr>until_clickable := (\<lambda>t b v timeout.
       if v = ''input[name='username']'' then Inr 1
       else if v = ''input[name='password']'' then Inr 2
       else if v = ''button[type='submit']'' then Inr 3
       else Inl (Exc TimeoutException ''Message: ''))\<rparr>"

text \<open>A page whose address matches none of the markers.\<close>

definition elsewhere_env :: env where
  "elsewhere_env =
     blank_env\<lparr>current_url := (\<lambda>t. Inr ''https://www.dndbeyond.com/account'')\<rparr>"

text \<open>
  A form whose identifier field answers to \<open>input[name='email']\<close> only and whose submit
  control answers to \<open>input[type='submit']\<close> only, with no password field under any of
  the selectors.
\<close>

definition partial_form_env :: env where
  "partial_form_env =
     blank_env\<lparr>until_clickable := (\<lambda>t b v timeout.
       if v = ''input[name='email']'' then Inr 7
       else if v = ''input[type='submit']'' then Inr 9
       else Inl (Exc TimeoutException ''Message: ''))\<rparr>"

text \<open>The same form with an identifier field that cannot be cleared.\<close>

definition stale_field_env :: env where
  "stale_field_env =
     partial_form_env\<lparr>action := (\<lambda>t c.
       case c of
         Clear el \<Rightarrow> Some (Exc WebDriverException ''stale element reference'')
       | _ \<Rightarrow> None)\<rparr>"

text \<open>The reference host answers and the target host does not.\<close>

definition target_down_env :: env where
  "target_down_env =
     blank_env\<lparr>urlopen := (\<lambda>t url timeout.
       if url = ''https://www.dndbeyond.com'' then Inl (Exc URLError ''timed out'')
       else Inr 200)\<rparr>"

text \<open>An interrupt from the keyboard arrives during every sleep.\<close>

definition interrupted_env :: env where
  "interrupted_env =
     blank_env\<lparr>action := (\<lambda>t c.
       case c of
         Sleep n \<Rightarrow> Some (Exc KeyboardInterrupt [])
       | _ \<Rightarrow> None)\<rparr>"

text \<open>A browser that starts and then rejects every script.\<close>

definition script_fails_env :: env where
  "script_fails_env =
     blank_env\<lparr>action := (\<lambda>t c.
       case c of
         ExecuteScript script \<Rightarrow> Some (Exc WebDriverException ''javascript error'')
       | _ \<Rightarrow> None)\<rparr>"

section \<open>Properties\<close>

lemmas prog_defs =
  ret_def raise_def andthen_def try_except_def try_finally_def print_def perform_def
  record_call_def on_driver_def read_self_def assign_driver_def now_def
  call_urlopen_def call_until_clickable_def call_find_element_def call_current_url_def

subsection \<open>String containment\<close>

text \<open>
  \<open>str_in p s\<close> holds exactly when \<open>p\<close> is a contiguous piece of \<open>s\<close>.
\<close>

lemma starts_with_iff: "starts_with s p = (\<exists>b. s = p @ b)"
  by (induction s p rule: starts_with.induct) auto

lemma str_in_iff: "str_in p s = (\<exists>a b. s = a @ p @ b)"
proof (induction s)
  case Nil
  then show ?case by simp
next
  case (Cons c s)
  show ?case
  proof
    assume "str_in p (c # s)"
    then consider "starts_with (c # s) p" | "str_in p s" by auto
    then show "\<exists>a b. c # s = a @ p @ b"
    proof cases
      case 1
      then obtain b where "c # s = p @ b" by (auto simp: starts_with_iff)
      then have "c # s = [] @ p @ b" by simp
      then show ?thesis by blast
    next
      case 2
      with Cons obtain a b where "s = a @ p @ b" by blast
      then have "c # s = (c # a) @ p @ b" by simp
      then show ?thesis by blast
    qed
  next
    assume "\<exists>a b. c # s = a @ p @ b"
    then obtain a b where ab: "c # s = a @ p @ b" by blast
    show "str_in p (c # s)"
    proof (cases a)
      case Nil
      with ab have "starts_with (c # s) p" by (auto simp: starts_with_iff)
      then show ?thesis by simp
    next
      case (Cons d a')
      with ab have "s = a' @ p @ b" by simp
      with Cons.IH have "str_in p s" by blast
      then show ?thesis by simp
    qed
  qed
qed

lemma now_session0: "now session0 = 0"
  by (simp add: session0_def init_def now_def)

lemma driver_session0: "driver session0"
  by (simp add: session0_def)

subsection \<open>Connectivity checks\<close>

text \<open>
  C7. Under every network condition (a response of any status, or any failure that
  \<open>urlopen\<close> raises as an exception of a subclass of Exception) each of the two
  connectivity checks returns a boolean and raises nothing, and the boolean is True
  exactly when a response came back with status 200; every failure gives False.
\<close>

theorem connectivity_checks_return_bool:
  assumes "network_outcome (urlopen env (now s) ''https://www.google.com'' 10)"
      and "network_outcome (urlopen env (now s') ''https://www.dndbeyond.com'' 15)"
  shows "fst (check_internet_connection env s)
           = Inr (urlopen env (now s) ''https://www.google.com'' 10 = Inr 200)
       \<and> fst (check_dndbeyond_accessibility env s')
           = Inr (urlopen env (now s') ''https://www.dndbeyond.com'' 15 = Inr 200)"
  using assms
  by (auto simp: check_internet_connection_def check_dndbeyond_accessibility_def
      network_outcome_def prog_defs split: sum.splits)

theorem connectivity_checks_return_bool_witness:
  "network_outcome (urlopen offline_env (now (init ''u'' ''p'' False)) ''https://www.google.com'' 10)
   \<and> network_outcome
        (urlopen offline_env (now (init ''u'' ''p'' False)) ''https://www.dndbeyond.com'' 15)
   \<and> fst (check_internet_connection offline_env (init ''u'' ''p'' False)) = Inr False
   \<and> fst (check_dndbeyond_accessibility offline_env (init ''u'' ''p'' False)) = Inr False
   \<and> network_outcome (urlopen blank_env (now (init ''u'' ''p'' False)) ''https://www.google.com'' 10)
   \<and> network_outcome
        (urlopen blank_env (now (init ''u'' ''p'' False)) ''https://www.dndbeyond.com'' 15)
   \<and> fst (check_internet_connection blank_env (init ''u'' ''p'' False)) = Inr True
   \<and> fst (check_dndbeyond_accessibility blank_env (init ''u'' ''p'' False)) = Inr True"
  using connectivity_checks_return_bool
    [of offline_env "init ''u'' ''p'' False" "init ''u'' ''p'' False"]
    connectivity_checks_return_bool
    [of blank_env "init ''u'' ''p'' False" "init ''u'' ''p'' False"]
  by (simp add: offline_env_def blank_env_def network_outcome_def)

text \<open>
  C9. When the first probe returns False, or the first returns True and the second
  returns False, \<open>authenticate\<close> returns False after printing which host was
  unreachable; the only external calls it has made are the probes themselves, so neither
  the driver installation nor \<open>webdriver.Edge\<close> was called, and \<open>self.driver\<close> is
  as it was.
\<close>

theorem unreachable_network_aborts_before_bootstrap:
  assumes "network_outcome (urlopen env (now s) ''https://www.google.com'' 10)"
    and "urlopen env (now s) ''https://www.google.com'' 10 \<noteq> Inr 200
         \<or> (network_outcome (urlopen env (Suc (now s)) ''https://www.dndbeyond.com'' 15)
            \<and> urlopen env (Suc (now s)) ''https://www.dndbeyond.com'' 15 \<noteq> Inr 200)"
  shows "fst (authenticate env s) = Inr False
       \<and> driver (snd (authenticate env s)) = driver s
       \<and> calls (snd (authenticate env s))
           = calls s @ (if urlopen env (now s) ''https://www.google.com'' 10 = Inr 200
                        then [Urlopen ''https://www.google.com'' 10,
                              Urlopen ''https://www.dndbeyond.com'' 15]
                        else [Urlopen ''https://www.google.com'' 10])
       \<and> last (out (snd (authenticate env s)))
           = (if urlopen env (now s) ''https://www.google.com'' 10 = Inr 200
              then ''D&D Beyond is not accessible''
              else ''No internet connection available'')"
  using assms
  by (auto simp: authenticate_def check_internet_connection_def
      check_dndbeyond_accessibility_def network_outcome_def prog_defs split: sum.splits)

theorem unreachable_network_aborts_before_bootstrap_witness:
  "network_outcome (urlopen offline_env (now (init ''user'' ''secret'' False))
      ''https://www.google.com'' 10)
   \<and> fst (authenticate offline_env (init ''user'' ''secret'' False)) = Inr False
   \<and> driver (snd (authenticate offline_env (init ''user'' ''secret'' False))) = False
   \<and> calls (snd (authenticate offline_env (init ''user'' ''secret'' False)))
       = [Urlopen ''https://www.google.com'' 10]
   \<and> last (out (snd (authenticate offline_env (init ''user'' ''secret'' False))))
       = ''No internet connection available''
   \<and> urlopen target_down_env (now (init ''user'' ''secret'' False))
        ''https://www.google.com'' 10 = Inr 200
   \<and> network_outcome (urlopen target_down_env (Suc (now (init ''user'' ''secret'' False)))
        ''https://www.dndbeyond.com'' 15)
   \<and> fst (authenticate target_down_env (init ''user'' ''secret'' False)) = Inr False
   \<and> driver (snd (authenticate target_down_env (init ''user'' ''secret'' False))) = False
   \<and> calls (snd (authenticate target_down_env (init ''user'' ''secret'' False)))
       = [Urlopen ''https://www.google.com'' 10, Urlopen ''https://www.dndbeyond.com'' 15]
   \<and> last (out (snd (authenticate target_down_env (init ''user'' ''secret'' False))))
       = ''D&D Beyond is not accessible''"
  using unreachable_network_aborts_before_bootstrap
    [where env = offline_env and s = "init ''user'' ''secret'' False"]
    unreachable_network_aborts_before_bootstrap
    [where env = target_down_env and s = "init ''user'' ''secret'' False"]
  by (simp add: offline_env_def target_down_env_def blank_env_def network_outcome_def
      init_def now_def)

subsection \<open>Keeping track of the session\<close>

text \<open>
  Every statement of the attempt keeps track of the session: the property holds of the
  primitive statements and is kept by sequencing, try and the loops. Starting the browser
  and assigning the driver are adjacent in \<open>setup_driver\<close> and are treated as one step.
\<close>

lemma started_in_append:
  "started_in env t (xs @ ys) = (started_in env t xs \<or> started_in env (t + length xs) ys)"
  by (induction xs arbitrary: t) auto

lemma tracks_ret: "tracks_session env (ret x)"
  by (simp add: tracks_session_def ret_def)

lemma tracks_raise: "tracks_session env (raise e)"
  by (simp add: tracks_session_def raise_def)

lemma tracks_print: "tracks_session env (print m)"
  by (simp add: tracks_session_def print_def)

lemma tracks_read_self: "tracks_session env (read_self f)"
  by (simp add: tracks_session_def read_self_def)

lemma tracks_perform:
  "c \<noteq> Quit \<Longrightarrow> \<not> is_Edge c \<Longrightarrow> tracks_session env (perform env c)"
  by (simp add: tracks_session_def perform_def record_call_def split: option.splits)

lemma tracks_urlopen: "tracks_session env (call_urlopen env url timeout)"
  by (simp add: tracks_session_def call_urlopen_def record_call_def)

lemma tracks_on_driver:
  "tracks_session env m \<Longrightarrow> tracks_session env (on_driver attr m)"
  by (auto simp: tracks_session_def on_driver_def)

lemma tracks_until_clickable: "tracks_session env (call_until_clickable env b v timeout)"
  unfolding call_until_clickable_def
  by (rule tracks_on_driver) (simp add: tracks_session_def record_call_def)

lemma tracks_find_element: "tracks_session env (call_find_element env b v)"
  unfolding call_find_element_def
  by (rule tracks_on_driver) (simp add: tracks_session_def record_call_def)

lemma tracks_current_url: "tracks_session env (call_current_url env)"
  unfolding call_current_url_def
  by (rule tracks_on_driver) (simp add: tracks_session_def record_call_def)

lemma tracks_step:
  assumes m: "tracks_session env m" and f: "\<And>x. tracks_session env (f x)"
    and run: "m s = (Inr x, s1)"
  shows "\<exists>ext. calls (snd (f x s1)) = calls s @ ext \<and> Quit \<notin> set ext \<and>
           driver (snd (f x s1)) = (driver s \<or> started_in env (length (calls s)) ext)"
proof -
  from m obtain e1 where e1: "calls s1 = calls s @ e1" "Quit \<notin> set e1"
    "driver s1 = (driver s \<or> started_in env (length (calls s)) e1)"
    using run unfolding tracks_session_def by (metis snd_conv)
  from f [of x] obtain e2 where e2: "calls (snd (f x s1)) = calls s1 @ e2" "Quit \<notin> set e2"
    "driver (snd (f x s1)) = (driver s1 \<or> started_in env (length (calls s1)) e2)"
    unfolding tracks_session_def by blast
  show ?thesis
    using e1 e2 by (intro exI [of _ "e1 @ e2"]) (auto simp: started_in_append)
qed

lemma tracks_andthen:
  assumes m: "tracks_session env m" and f: "\<And>x. tracks_session env (f x)"
  shows "tracks_session env (andthen m f)"
  unfolding tracks_session_def
proof
  fix s
  obtain r s1 where run: "m s = (r, s1)" by (cases "m s")
  show "\<exists>ext. calls (snd (andthen m f s)) = calls s @ ext \<and> Quit \<notin> set ext \<and>
           driver (snd (andthen m f s)) = (driver s \<or> started_in env (length (calls s)) ext)"
  proof (cases r)
    case (Inl e)
    with run have "snd (andthen m f s) = snd (m s)"
      by (simp add: andthen_def)
    with m show ?thesis
      unfolding tracks_session_def by simp
  next
    case (Inr x)
    with run tracks_step [OF m f, of s x s1] show ?thesis
      by (simp add: andthen_def)
  qed
qed

lemma tracks_try_except:
  assumes m: "tracks_session env m" and h: "\<And>e. tracks_session env (h e)"
  shows "tracks_session env (try_except m h)"
  unfolding tracks_session_def
proof
  fix s
  obtain r s1 where run: "m s = (r, s1)" by (cases "m s")
  show "\<exists>ext. calls (snd (try_except m h s)) = calls s @ ext \<and> Quit \<notin> set ext \<and>
           driver (snd (try_except m h s)) = (driver s \<or> started_in env (length (calls s)) ext)"
  proof (cases r)
    case (Inr x)
    with run have "snd (try_except m h s) = snd (m s)"
      by (simp add: try_except_def)
    with m show ?thesis
      unfolding tracks_session_def by simp
  next
    case (Inl e)
    have eq: "try_except m h s = andthen (\<lambda>s. (Inr e, snd (m s))) h s"
      using run Inl by (simp add: try_except_def andthen_def)
    have "tracks_session env (\<lambda>s. (Inr e, snd (m s)))"
      using m by (simp add: tracks_session_def)
    then have "tracks_session env (andthen (\<lambda>s. (Inr e, snd (m s))) h)"
      using h by (rule tracks_andthen)
    then show ?thesis
      unfolding eq tracks_session_def by (rule spec)
  qed
qed

lemma tracks_if:
  "tracks_session env a \<Longrightarrow> tracks_session env b \<Longrightarrow> tracks_session env (if c then a else b)"
  by simp

lemma tracks_case_option:
  "tracks_session env a \<Longrightarrow> (\<And>y. tracks_session env (b y)) \<Longrightarrow>
   tracks_session env (case x of None \<Rightarrow> a | Some y \<Rightarrow> b y)"
  by (cases x) simp_all

lemmas tracks_intros =
  tracks_ret tracks_raise tracks_print tracks_read_self tracks_urlopen tracks_on_driver
  tracks_until_clickable tracks_find_element tracks_current_url tracks_andthen
  tracks_try_except tracks_if tracks_case_option tracks_perform

lemma tracks_check_internet_connection: "tracks_session env (check_internet_connection env)"
  unfolding check_internet_connection_def by (intro tracks_intros)

lemma tracks_check_dndbeyond_accessibility:
  "tracks_session env (check_dndbeyond_accessibility env)"
  unfolding check_dndbeyond_accessibility_def by (intro tracks_intros)

lemma tracks_wait_for_element: "tracks_session env (wait_for_element env b v timeout)"
  unfolding wait_for_element_def by (intro tracks_intros)

lemma tracks_wizards_loop: "tracks_session env (wizards_loop env sels)"
proof (induction sels)
  case Nil
  show ?case by (simp add: tracks_ret)
next
  case (Cons a rest)
  then show ?case by (auto intro!: tracks_intros tracks_wait_for_element)
qed

lemma tracks_click_sign_in_with_wizards: "tracks_session env (click_sign_in_with_wizards env)"
  unfolding click_sign_in_with_wizards_def by (intro tracks_intros tracks_wizards_loop)

lemma tracks_field_loop: "tracks_session env (field_loop env sels)"
proof (induction sels)
  case Nil
  show ?case by (simp add: tracks_ret)
next
  case (Cons a rest)
  then show ?case by (auto intro!: tracks_intros tracks_wait_for_element)
qed

lemma tracks_enter_credentials: "tracks_session env (enter_credentials env)"
  unfolding enter_credentials_def by (intro tracks_intros tracks_field_loop; simp)

lemma tracks_submit_loop: "tracks_session env (submit_loop env sels)"
proof (induction sels)
  case Nil
  show ?case by (simp add: tracks_ret)
next
  case (Cons a rest)
  then show ?case by (auto intro!: tracks_intros tracks_wait_for_element)
qed

lemma tracks_submit_login: "tracks_session env (submit_login env)"
  unfolding submit_login_def by (intro tracks_intros tracks_submit_loop)

lemma tracks_indicator_loop: "tracks_session env (indicator_loop current inds)"
proof (induction inds)
  case Nil
  show ?case by (simp add: tracks_ret)
next
  case (Cons a rest)
  then show ?case by (auto intro!: tracks_intros)
qed

lemma tracks_user_elements_loop: "tracks_session env (user_elements_loop env sels)"
proof (induction sels)
  case Nil
  show ?case by (simp add: tracks_ret)
next
  case (Cons a rest)
  then show ?case by (auto intro!: tracks_intros)
qed

lemma tracks_check_login_success: "tracks_session env (check_login_success env)"
  unfolding check_login_success_def
  by (intro tracks_intros tracks_indicator_loop tracks_user_elements_loop; simp)

lemma tracks_edge:
  assumes rest: "tracks_session env rest"
  shows "tracks_session env
           (andthen (perform env (Edge opts)) (\<lambda>_. andthen assign_driver (\<lambda>_. rest)))"
  unfolding tracks_session_def
proof
  fix s :: state
  let ?m = "andthen (perform env (Edge opts)) (\<lambda>_. andthen assign_driver (\<lambda>_. rest))"
  let ?s2 = "s\<lparr>calls := calls s @ [Edge opts], driver := True\<rparr>"
  show "\<exists>ext. calls (snd (?m s)) = calls s @ ext \<and> Quit \<notin> set ext \<and>
          driver (snd (?m s)) = (driver s \<or> started_in env (length (calls s)) ext)"
  proof (cases "action env (length (calls s)) (Edge opts)")
    case (Some e)
    then have "snd (?m s) = s\<lparr>calls := calls s @ [Edge opts]\<rparr>"
      by (simp add: prog_defs)
    with Some show ?thesis by simp
  next
    case None
    then have run: "?m s = rest ?s2"
      by (simp add: prog_defs)
    from rest obtain e2 where e2: "calls (snd (rest ?s2)) = calls ?s2 @ e2" "Quit \<notin> set e2"
      "driver (snd (rest ?s2)) = (driver ?s2 \<or> started_in env (length (calls ?s2)) e2)"
      unfolding tracks_session_def by blast
    show ?thesis
      unfolding run using e2 None by (intro exI [of _ "Edge opts # e2"]) simp
  qed
qed

lemma tracks_setup_driver: "tracks_session env (setup_driver env)"
  unfolding setup_driver_def
  apply (rule tracks_try_except)
   apply (rule tracks_andthen, rule tracks_print)
   apply (rule tracks_andthen, rule tracks_read_self)
   apply (rule tracks_andthen, rule tracks_print)
   apply (rule tracks_andthen, rule tracks_perform, simp, simp)
   apply (rule tracks_andthen, rule tracks_print)
   apply (rule tracks_edge)
   apply (intro tracks_intros; simp)
  apply (intro tracks_intros)
  done

lemma tracks_authenticate: "tracks_session env (authenticate env)"
  unfolding authenticate_def
  by (intro tracks_intros tracks_check_internet_connection tracks_check_dndbeyond_accessibility
      tracks_setup_driver tracks_click_sign_in_with_wizards tracks_enter_credentials
      tracks_submit_login tracks_check_login_success; simp)

lemma calls_grow:
  assumes "tracks_session env m"
  shows "\<exists>ext. calls (snd (m s)) = calls s @ ext"
  using assms unfolding tracks_session_def by blast

lemma tracks_main_body:
  "tracks_session env
     (try_except
          (andthen (authenticate env) (\<lambda>success.
           if success
           then andthen (print ''Authentication successful!'') (\<lambda>_.
                andthen (print ''You can now continue with your automation tasks...'') (\<lambda>_.
                perform env (Input ''Press Enter to close the browser...'')))
           else print ''Authentication failed!''))
          (\<lambda>e. if cls e = KeyboardInterrupt
               then print ''Authentication interrupted by user''
               else if is_Exception (cls e)
               then print (''Unexpected error: '' @ msg e)
               else raise e))"
  by (intro tracks_intros tracks_authenticate; simp)

lemma snd_try_finally: "snd (try_finally m fin s) = snd (fin (snd (m s)))"
  by (simp add: try_finally_def split: prod.splits sum.splits)

lemma started_in_snoc_Quit: "started_in env t (cs @ [Quit]) = started_in env t cs"
  by (simp add: started_in_append)

lemma main_calls:
  "\<exists>ext. Quit \<notin> set ext \<and>
     calls (snd (main env u p)) = (if started_in env 0 ext then ext @ [Quit] else ext)"
proof -
  let ?body = "try_except
          (andthen (authenticate env) (\<lambda>success.
           if success
           then andthen (print ''Authentication successful!'') (\<lambda>_.
                andthen (print ''You can now continue with your automation tasks...'') (\<lambda>_.
                perform env (Input ''Press Enter to close the browser...'')))
           else print ''Authentication failed!''))
          (\<lambda>e. if cls e = KeyboardInterrupt
               then print ''Authentication interrupted by user''
               else if is_Exception (cls e)
               then print (''Unexpected error: '' @ msg e)
               else raise e)"
  let ?s1 = "snd (?body (init u p False))"
  from tracks_main_body [of env] obtain ext where
    ext: "calls ?s1 = calls (init u p False) @ ext" "Quit \<notin> set ext"
      "driver ?s1 = (driver (init u p False) \<or> started_in env (length (calls (init u p False))) ext)"
    unfolding tracks_session_def by blast
  then have s1: "calls ?s1 = ext" "driver ?s1 = started_in env 0 ext"
    by (simp_all add: init_def)
  have "snd (main env u p) = snd (close env ?s1)"
    unfolding main_def by (rule snd_try_finally)
  then have "calls (snd (main env u p)) = (if started_in env 0 ext then ext @ [Quit] else ext)"
    using s1 by (simp add: close_def prog_defs split: option.splits)
  with ext(2) show ?thesis by blast
qed

lemma count_list_notin: "x \<notin> set xs \<Longrightarrow> count_list xs x = 0"
  by (induction xs) auto

text \<open>
  C1. In every run of \<open>main\<close> in which a browser session was created
  (\<open>webdriver.Edge\<close> returned a driver), whatever any later call returns or raises,
  \<open>driver.quit\<close> is called exactly once, and it is the last external call of the run.
\<close>

theorem session_released_exactly_once:
  assumes "session_created env (calls (snd (main env u p)))"
  shows "count_list (calls (snd (main env u p))) Quit = 1
         \<and> last (calls (snd (main env u p))) = Quit"
proof -
  from main_calls [of env u p] obtain ext where ext: "Quit \<notin> set ext"
    "calls (snd (main env u p)) = (if started_in env 0 ext then ext @ [Quit] else ext)"
    by blast
  have "started_in env 0 ext"
    using assms ext(2) by (auto simp: session_created_def started_in_snoc_Quit split: if_splits)
  with ext show ?thesis
    by (simp add: count_list_notin)
qed

theorem session_released_exactly_once_witness:
  "session_created blank_env (calls (snd (main blank_env ''u'' ''p'')))
   \<and> count_list (calls (snd (main blank_env ''u'' ''p''))) Quit = 1
   \<and> last (calls (snd (main blank_env ''u'' ''p''))) = Quit
   \<and> session_created interrupted_env (calls (snd (main interrupted_env ''u'' ''p'')))
   \<and> count_list (calls (snd (main interrupted_env ''u'' ''p''))) Quit = 1
   \<and> last (calls (snd (main interrupted_env ''u'' ''p''))) = Quit"
proof -
  have created: "session_created blank_env (calls (snd (main blank_env ''u'' ''p'')))"
    by code_simp
  have interrupted:
    "session_created interrupted_env (calls (snd (main interrupted_env ''u'' ''p'')))"
    by code_simp
  from session_released_exactly_once [OF created]
    session_released_exactly_once [OF interrupted] created interrupted
  show ?thesis
    by simp
qed

text \<open>
  Conversely, a run in which no browser was started never calls \<open>quit\<close>.
\<close>

lemma no_session_no_release:
  assumes "\<not> session_created env (calls (snd (main env u p)))"
  shows "Quit \<notin> set (calls (snd (main env u p)))"
proof -
  from main_calls [of env u p] obtain ext where ext: "Quit \<notin> set ext"
    "calls (snd (main env u p)) = (if started_in env 0 ext then ext @ [Quit] else ext)"
    by blast
  have "\<not> started_in env 0 ext"
    using assms ext(2) by (auto simp: session_created_def started_in_snoc_Quit split: if_splits)
  with ext show ?thesis by simp
qed

subsection \<open>Session bootstrap\<close>

lemma setup_driver_script_raises:
  assumes "action env (now s) Install = None"
    and "action env (Suc (now s)) (Edge (build_options (headless s))) = None"
    and "action env (now s + 2)
           (ExecuteScript ''Object.defineProperty(navigator, 'webdriver', {get: () => undefined})'')
         = Some e"
    and "is_Exception (cls e)"
  shows "setup_driver env s
           = (Inr False,
              s\<lparr>driver := True,
                calls := calls s @ [Install, Edge (build_options (headless s)),
                  ExecuteScript
                    ''Object.defineProperty(navigator, 'webdriver', {get: () => undefined})''],
                out := out s @ [''Setting up Edge WebDriver...'',
                  ''Downloading/updating Edge WebDriver...'', ''Starting Edge browser...'',
                  if is_WebDriverException (cls e) then ''WebDriver error: '' @ msg e
                  else ''Error setting up driver: '' @ msg e]\<rparr>)"
  using assms by (simp add: setup_driver_def prog_defs)

text \<open>
  \<open>setup_driver\<close> returns True exactly when each of the five calls in its try
  block returns: the driver installation, the browser start, the script that overrides
  \<open>navigator.webdriver\<close>, and the two timeout settings.
\<close>

lemma setup_driver_True_iff:
  "(fst (setup_driver env s) = Inr True) =
     (action env (now s) Install = None
      \<and> action env (now s + 1) (Edge (build_options (headless s))) = None
      \<and> action env (now s + 2)
           (ExecuteScript ''Object.defineProperty(navigator, 'webdriver', {get: () => undefined})'')
          = None
      \<and> action env (now s + 3) (ImplicitlyWait 10) = None
      \<and> action env (now s + 4) (SetPageLoadTimeout 30) = None)"
proof -
  have offsets: "\<And>n::nat. n + 3 = Suc (Suc (Suc n))" "\<And>n::nat. n + 4 = Suc (Suc (Suc (Suc n)))"
    by simp_all
  show ?thesis
    by (auto simp: setup_driver_def prog_defs offsets split: option.splits)
qed

text \<open>
  A driver installation or a browser start that raises an exception makes
  \<open>setup_driver\<close> return False as well, with \<open>self.driver\<close> left as it was.
\<close>

lemma setup_driver_start_raises:
  assumes "action env (now s) Install = Some e
           \<or> (action env (now s) Install = None
              \<and> action env (Suc (now s)) (Edge (build_options (headless s))) = Some e)"
    and "is_Exception (cls e)"
  shows "fst (setup_driver env s) = Inr False \<and> driver (snd (setup_driver env s)) = driver s"
  using assms by (cases "is_WebDriverException (cls e)") (auto simp: setup_driver_def prog_defs)

text \<open>
  C4, as the claim states it, fails: the browser starts, only the script that overrides
  \<open>navigator.webdriver\<close> raises, and \<open>setup_driver\<close> returns False.
\<close>

theorem override_is_best_effort_counterexample:
  "action script_fails_env 0 Install = None
   \<and> action script_fails_env 1 (Edge (build_options False)) = None
   \<and> action script_fails_env 2
        (ExecuteScript ''Object.defineProperty(navigator, 'webdriver', {get: () => undefined})'')
       = Some (Exc WebDriverException ''javascript error'')
   \<and> fst (setup_driver script_fails_env (init ''user'' ''secret'' False)) = Inr False"
  by (simp add: setup_driver_def prog_defs script_fails_env_def blank_env_def init_def)

text \<open>
  C4, amended. A failure of the \<open>navigator.webdriver\<close> override is fatal to the
  bootstrap: when the driver installation and the browser start return and the script
  raises an exception, \<open>setup_driver\<close> prints the error and returns False, the same
  result as for a browser that cannot start, while \<open>self.driver\<close> stays assigned.
\<close>

theorem override_failure_is_fatal:
  assumes "action env (now s) Install = None"
    and "action env (Suc (now s)) (Edge (build_options (headless s))) = None"
    and "action env (now s + 2)
           (ExecuteScript ''Object.defineProperty(navigator, 'webdriver', {get: () => undefined})'')
         = Some e"
    and "is_Exception (cls e)"
  shows "fst (setup_driver env s) = Inr False
       \<and> driver (snd (setup_driver env s))
       \<and> last (out (snd (setup_driver env s)))
           = (if is_WebDriverException (cls e) then ''WebDriver error: '' @ msg e
              else ''Error setting up driver: '' @ msg e)"
  using setup_driver_script_raises [OF assms] by simp

theorem override_failure_is_fatal_witness:
  "action script_fails_env (now (init ''user'' ''secret'' False)) Install = None
   \<and> action script_fails_env (Suc (now (init ''user'' ''secret'' False)))
        (Edge (build_options False)) = None
   \<and> is_Exception WebDriverException
   \<and> fst (setup_driver script_fails_env (init ''user'' ''secret'' False)) = Inr False
   \<and> driver (snd (setup_driver script_fails_env (init ''user'' ''secret'' False)))
   \<and> last (out (snd (setup_driver script_fails_env (init ''user'' ''secret'' False))))
       = ''WebDriver error: javascript error''"
  using override_failure_is_fatal
    [where env = script_fails_env and s = "init ''user'' ''secret'' False"
       and e = "Exc WebDriverException ''javascript error''"]
  by (simp add: script_fails_env_def blank_env_def init_def now_def)

subsection \<open>Finding elements\<close>

lemma shift_polls:
  assumes "\<forall>i<length (x # xs). P (t + i) ((x # xs) ! i)"
  shows "P t x" and "\<forall>i<length xs. P (Suc t + i) (xs ! i)"
proof -
  from assms have "P (t + 0) ((x # xs) ! 0)" by blast
  then show "P t x" by simp
  show "\<forall>i<length xs. P (Suc t + i) (xs ! i)"
  proof (intro allI impI)
    fix i assume "i < length xs"
    then have "P (t + Suc i) ((x # xs) ! Suc i)" using assms by (metis Suc_less_eq length_Cons)
    then show "P (Suc t + i) (xs ! i)" by simp
  qed
qed

lemma wait_timeout:
  assumes "driver s" and "timed_out (until_clickable env (now s) b v t)"
  shows "wait_for_element env b v t s
           = (Inr None, s\<lparr>calls := calls s @ [UntilClickable b v t],
                           out := out s @ [''Timeout waiting for element: '' @ v]\<rparr>)"
  using assms by (auto simp: wait_for_element_def prog_defs timed_out_def split: sum.splits)

lemma wait_found:
  assumes "driver s" and "until_clickable env (now s) b v t = Inr el"
  shows "wait_for_element env b v t s
           = (Inr (Some el), s\<lparr>calls := calls s @ [UntilClickable b v t]\<rparr>)"
  using assms by (simp add: wait_for_element_def prog_defs)

lemma field_loop_none:
  assumes "driver s"
    and "\<forall>i<length sels. timed_out (until_clickable env (now s + i) CSS_SELECTOR (sels ! i) 5)"
  shows "field_loop env sels s
           = (Inr None, s\<lparr>calls := calls s @ map (\<lambda>v. UntilClickable CSS_SELECTOR v 5) sels,
                          out := out s @ map timeout_line sels\<rparr>)"
  using assms
proof (induction sels arbitrary: s)
  case Nil
  then show ?case by (simp add: ret_def)
next
  case (Cons sel rest)
  let ?s1 = "s\<lparr>calls := calls s @ [UntilClickable CSS_SELECTOR sel 5],
               out := out s @ [''Timeout waiting for element: '' @ sel]\<rparr>"
  note sh = shift_polls [where P = "\<lambda>t v. timed_out (until_clickable env t CSS_SELECTOR v 5)",
      OF Cons.prems(2)]
  have step: "wait_for_element env CSS_SELECTOR sel 5 s = (Inr None, ?s1)"
    using Cons.prems(1) sh(1) by (rule wait_timeout)
  have "field_loop env rest ?s1
          = (Inr None, ?s1\<lparr>calls := calls ?s1 @ map (\<lambda>v. UntilClickable CSS_SELECTOR v 5) rest,
                            out := out ?s1 @ map timeout_line rest\<rparr>)"
    using Cons.prems(1) sh(2) by (intro Cons.IH) (simp_all add: now_def)
  with step show ?case
    by (simp add: andthen_def timeout_line_def)
qed

lemma field_loop_first:
  assumes "driver s"
    and "\<forall>i<length pre. timed_out (until_clickable env (now s + i) CSS_SELECTOR (pre ! i) 5)"
    and "until_clickable env (now s + length pre) CSS_SELECTOR c 5 = Inr el"
  shows "field_loop env (pre @ c # post) s
           = (Inr (Some el),
              s\<lparr>calls := calls s @ map (\<lambda>v. UntilClickable CSS_SELECTOR v 5) (pre @ [c]),
                out := out s @ map timeout_line pre\<rparr>)"
  using assms
proof (induction pre arbitrary: s)
  case Nil
  then show ?case by (simp add: andthen_def wait_found ret_def)
next
  case (Cons sel rest)
  let ?s1 = "s\<lparr>calls := calls s @ [UntilClickable CSS_SELECTOR sel 5],
               out := out s @ [''Timeout waiting for element: '' @ sel]\<rparr>"
  note sh = shift_polls [where P = "\<lambda>t v. timed_out (until_clickable env t CSS_SELECTOR v 5)",
      OF Cons.prems(2)]
  have step: "wait_for_element env CSS_SELECTOR sel 5 s = (Inr None, ?s1)"
    using Cons.prems(1) sh(1) by (rule wait_timeout)
  have "field_loop env (rest @ c # post) ?s1
          = (Inr (Some el),
             ?s1\<lparr>calls := calls ?s1 @ map (\<lambda>v. UntilClickable CSS_SELECTOR v 5) (rest @ [c]),
                  out := out ?s1 @ map timeout_line rest\<rparr>)"
    using Cons.prems(1,3) sh(2) by (intro Cons.IH) (simp_all add: now_def)
  with step show ?case
    by (simp add: andthen_def timeout_line_def)
qed

lemma submit_wait:
  "(if starts_with selector ''//''
    then wait_for_element env XPATH selector 5
    else wait_for_element env CSS_SELECTOR selector 5)
   = wait_for_element env (submit_strategy selector) selector 5"
  by (simp add: submit_strategy_def)

lemma submit_loop_none:
  assumes "driver s"
    and "\<forall>i<length sels.
           timed_out (until_clickable env (now s + i) (submit_strategy (sels ! i)) (sels ! i) 5)"
  shows "submit_loop env sels s
           = (Inr None,
              s\<lparr>calls := calls s @ map (\<lambda>v. UntilClickable (submit_strategy v) v 5) sels,
                out := out s @ map timeout_line sels\<rparr>)"
  using assms
proof (induction sels arbitrary: s)
  case Nil
  then show ?case by (simp add: ret_def)
next
  case (Cons sel rest)
  let ?s1 = "s\<lparr>calls := calls s @ [UntilClickable (submit_strategy sel) sel 5],
               out := out s @ [''Timeout waiting for element: '' @ sel]\<rparr>"
  note sh = shift_polls
    [where P = "\<lambda>t v. timed_out (until_clickable env t (submit_strategy v) v 5)",
      OF Cons.prems(2)]
  have step: "wait_for_element env (submit_strategy sel) sel 5 s = (Inr None, ?s1)"
    using Cons.prems(1) sh(1) by (rule wait_timeout)
  have "submit_loop env rest ?s1
          = (Inr None,
             ?s1\<lparr>calls := calls ?s1 @ map (\<lambda>v. UntilClickable (submit_strategy v) v 5) rest,
                  out := out ?s1 @ map timeout_line rest\<rparr>)"
    using Cons.prems(1) sh(2) by (intro Cons.IH) (simp_all add: now_def)
  with step show ?case
    by (simp add: submit_wait andthen_def try_except_def ret_def timeout_line_def)
qed

lemma wizards_loop_none:
  assumes "driver s"
    and "\<forall>i<length sels. timed_out (until_clickable env (now s + i) XPATH (sels ! i) 5)"
  shows "wizards_loop env sels s
           = (Inr None, s\<lparr>calls := calls s @ map (\<lambda>v. UntilClickable XPATH v 5) sels,
                          out := out s @ map timeout_line sels\<rparr>)"
  using assms
proof (induction sels arbitrary: s)
  case Nil
  then show ?case by (simp add: ret_def)
next
  case (Cons sel rest)
  let ?s1 = "s\<lparr>calls := calls s @ [UntilClickable XPATH sel 5],
               out := out s @ [''Timeout waiting for element: '' @ sel]\<rparr>"
  note sh = shift_polls [where P = "\<lambda>t v. timed_out (until_clickable env t XPATH v 5)",
      OF Cons.prems(2)]
  have step: "wait_for_element env XPATH sel 5 s = (Inr None, ?s1)"
    using Cons.prems(1) sh(1) by (rule wait_timeout)
  have "wizards_loop env rest ?s1
          = (Inr None, ?s1\<lparr>calls := calls ?s1 @ map (\<lambda>v. UntilClickable XPATH v 5) rest,
                            out := out ?s1 @ map timeout_line rest\<rparr>)"
    using Cons.prems(1) sh(2) by (intro Cons.IH) (simp_all add: now_def)
  with step show ?case
    by (simp add: andthen_def try_except_def ret_def timeout_line_def)
qed

lemma submit_step_clicked:
  assumes "driver s" and "until_clickable env (now s) (submit_strategy c) c 5 = Inr el"
    and "action env (Suc (now s)) (Click el) = None"
  shows "submit_loop env (c # post) s
           = (Inr (Some True),
              s\<lparr>calls := calls s @ [UntilClickable (submit_strategy c) c 5, Click el],
                out := out s @ [''Found submit button, clicking...'']\<rparr>)"
  using assms(3) wait_found [OF assms(1,2)]
  by (simp add: submit_wait andthen_def try_except_def ret_def print_def perform_def
      record_call_def now_def)

lemma submit_step_found:
  assumes "driver s" and "until_clickable env (now s) (submit_strategy c) c 5 = Inr el"
  shows "\<exists>more. calls (snd (submit_loop env (c # post) s))
           = calls s @ [UntilClickable (submit_strategy c) c 5, Click el] @ more"
proof (cases "action env (Suc (now s)) (Click el)")
  case None
  with submit_step_clicked [OF assms this, of post] show ?thesis by simp
next
  case (Some e)
  let ?s2 = "s\<lparr>out := out s @ [''Found submit button, clicking...''],
               calls := calls s @ [UntilClickable (submit_strategy c) c 5, Click el]\<rparr>"
  show ?thesis
  proof (cases "is_Exception (cls e)")
    case True
    with Some wait_found [OF assms] have "submit_loop env (c # post) s = submit_loop env post ?s2"
      by (simp add: submit_wait andthen_def try_except_def ret_def print_def perform_def
          record_call_def now_def)
    moreover obtain ext where "calls (snd (submit_loop env post ?s2)) = calls ?s2 @ ext"
      using calls_grow [OF tracks_submit_loop] by blast
    ultimately show ?thesis by simp
  next
    case False
    with Some wait_found [OF assms] have "submit_loop env (c # post) s = (Inl e, ?s2)"
      by (simp add: submit_wait andthen_def try_except_def ret_def print_def perform_def
          record_call_def now_def raise_def)
    then show ?thesis by simp
  qed
qed

lemma submit_loop_skip:
  assumes "driver s"
    and "\<forall>i<length pre.
           timed_out (until_clickable env (now s + i) (submit_strategy (pre ! i)) (pre ! i) 5)"
  shows "submit_loop env (pre @ rest) s
           = submit_loop env rest
              (s\<lparr>calls := calls s @ map (\<lambda>v. UntilClickable (submit_strategy v) v 5) pre,
                 out := out s @ map timeout_line pre\<rparr>)"
  using assms
proof (induction pre arbitrary: s)
  case Nil
  then show ?case by simp
next
  case (Cons sel pre)
  let ?s1 = "s\<lparr>calls := calls s @ [UntilClickable (submit_strategy sel) sel 5],
               out := out s @ [''Timeout waiting for element: '' @ sel]\<rparr>"
  note sh = shift_polls
    [where P = "\<lambda>t v. timed_out (until_clickable env t (submit_strategy v) v 5)",
      OF Cons.prems(2)]
  have step: "wait_for_element env (submit_strategy sel) sel 5 s = (Inr None, ?s1)"
    using Cons.prems(1) sh(1) by (rule wait_timeout)
  have "submit_loop env ((sel # pre) @ rest) s = submit_loop env (pre @ rest) ?s1"
    using step by (simp add: submit_wait andthen_def try_except_def ret_def)
  also have "\<dots> = submit_loop env rest
             (?s1\<lparr>calls := calls ?s1 @ map (\<lambda>v. UntilClickable (submit_strategy v) v 5) pre,
                   out := out ?s1 @ map timeout_line pre\<rparr>)"
    using Cons.prems(1) sh(2) by (intro Cons.IH) (simp_all add: now_def)
  also have "\<dots> = submit_loop env rest
              (s\<lparr>calls := calls s
                   @ map (\<lambda>v. UntilClickable (submit_strategy v) v 5) (sel # pre),
                 out := out s @ map timeout_line (sel # pre)\<rparr>)"
    by (rule arg_cong [where f = "submit_loop env rest"]) (simp add: timeout_line_def)
  finally show ?case .
qed

lemma submit_login_first:
  assumes "driver s" and "k < length submit_selectors"
    and "\<forall>i<k. timed_out (until_clickable env (now s + i)
            (submit_strategy (submit_selectors ! i)) (submit_selectors ! i) 5)"
    and "until_clickable env (now s + k)
            (submit_strategy (submit_selectors ! k)) (submit_selectors ! k) 5 = Inr el"
    and "action env (now s + k + 1) (Click el) = None"
  shows "submit_login env s
           = (Inr True,
              s\<lparr>calls := calls s
                  @ map (\<lambda>v. UntilClickable (submit_strategy v) v 5) (take (Suc k) submit_selectors)
                  @ [Click el],
                out := out s @ map timeout_line (take k submit_selectors)
                  @ [''Found submit button, clicking...'']\<rparr>)"
proof -
  let ?pre = "take k submit_selectors"
  let ?c = "submit_selectors ! k"
  let ?post = "drop (Suc k) submit_selectors"
  let ?s1 = "s\<lparr>calls := calls s @ map (\<lambda>v. UntilClickable (submit_strategy v) v 5) ?pre,
                 out := out s @ map timeout_line ?pre\<rparr>"
  have split: "submit_selectors = ?pre @ ?c # ?post"
    using assms(2) by (rule id_take_nth_drop)
  have len: "length ?pre = k" using assms(2) by simp
  have "submit_loop env (?pre @ ?c # ?post) s = submit_loop env (?c # ?post) ?s1"
    using assms(1,3) by (intro submit_loop_skip) (simp_all add: len)
  moreover have "submit_loop env (?c # ?post) ?s1
      = (Inr (Some True),
         ?s1\<lparr>calls := calls ?s1 @ [UntilClickable (submit_strategy ?c) ?c 5, Click el],
              out := out ?s1 @ [''Found submit button, clicking...'']\<rparr>)"
    using assms(1,2,4,5) by (intro submit_step_clicked) (simp_all add: now_def min_def)
  ultimately have "submit_loop env submit_selectors s
      = (Inr (Some True),
         ?s1\<lparr>calls := calls ?s1 @ [UntilClickable (submit_strategy ?c) ?c 5, Click el],
              out := out ?s1 @ [''Found submit button, clicking...'']\<rparr>)"
    using split by simp
  then show ?thesis
    using assms(2)
    by (simp add: submit_login_def andthen_def try_except_def ret_def take_Suc_conv_app_nth)
qed

lemma click_sign_in_none:
  assumes "driver s"
    and "\<forall>i<length possible_selectors.
           timed_out (until_clickable env (now s + i) XPATH (possible_selectors ! i) 5)"
  shows "fst (click_sign_in_with_wizards env s) = Inr False"
  using wizards_loop_none [OF assms]
  by (simp add: click_sign_in_with_wizards_def andthen_def try_except_def print_def ret_def)

text \<open>
  C6. On a session in which the wait for a candidate times out, \<open>wait_for_element\<close>
  returns None and raises nothing; and when the wait for every candidate of a list times
  out, each of the three selector loops runs to its end without raising and
  \<open>click_sign_in_with_wizards\<close> returns False.
\<close>

theorem absent_element_is_a_normal_result:
  assumes "driver s"
  shows "(timed_out (until_clickable env (now s) b v t)
            \<longrightarrow> fst (wait_for_element env b v t s) = Inr None)
       \<and> ((\<forall>i<length sels. timed_out (until_clickable env (now s + i) XPATH (sels ! i) 5))
            \<longrightarrow> fst (wizards_loop env sels s) = Inr None)
       \<and> ((\<forall>i<length sels.
              timed_out (until_clickable env (now s + i) CSS_SELECTOR (sels ! i) 5))
            \<longrightarrow> fst (field_loop env sels s) = Inr None)
       \<and> ((\<forall>i<length sels.
              timed_out (until_clickable env (now s + i) (submit_strategy (sels ! i)) (sels ! i) 5))
            \<longrightarrow> fst (submit_loop env sels s) = Inr None)
       \<and> ((\<forall>i<length possible_selectors.
              timed_out (until_clickable env (now s + i) XPATH (possible_selectors ! i) 5))
            \<longrightarrow> fst (click_sign_in_with_wizards env s) = Inr False)"
  using assms
  by (simp add: wait_timeout wizards_loop_none field_loop_none submit_loop_none
      click_sign_in_none)

theorem absent_element_is_a_normal_result_witness:
  "driver session0
   \<and> timed_out (until_clickable blank_env (now session0) XPATH ''//a'' 5)
   \<and> fst (wait_for_element blank_env XPATH ''//a'' 5 session0) = Inr None
   \<and> fst (wizards_loop blank_env submit_selectors session0) = Inr None
   \<and> fst (field_loop blank_env submit_selectors session0) = Inr None
   \<and> fst (submit_loop blank_env submit_selectors session0) = Inr None
   \<and> fst (click_sign_in_with_wizards blank_env session0) = Inr False"
  using absent_element_is_a_normal_result
    [OF driver_session0, where env = blank_env and b = XPATH and v = "''//a''" and t = 5
      and sels = submit_selectors]
  by (simp add: driver_session0 blank_env_def timed_out_def)

text \<open>
  C5. For every list of candidates \<open>pre @ c # post\<close>: when the waits for the
  candidates of \<open>pre\<close> time out one after another and the wait for \<open>c\<close> then returns
  the element \<open>el\<close>, the field loop of \<open>enter_credentials\<close> returns \<open>el\<close> and has
  polled \<open>pre\<close> and \<open>c\<close> in order and nothing of \<open>post\<close>; the loop of
  \<open>submit_login\<close> has polled the same way and its next call is the click on \<open>el\<close>,
  after which it returns True if the click returns. So \<open>submit_login\<close>, on its own
  selectors, clicks the element of the first selector that resolves and returns True.
\<close>

theorem first_matching_candidate_wins:
  assumes "driver s"
  shows "((\<forall>i<length pre.
             timed_out (until_clickable env (now s + i) CSS_SELECTOR (pre ! i) 5))
          \<and> until_clickable env (now s + length pre) CSS_SELECTOR c 5 = Inr el
          \<longrightarrow> fst (field_loop env (pre @ c # post) s) = Inr (Some el)
            \<and> calls (snd (field_loop env (pre @ c # post) s))
                = calls s @ map (\<lambda>v. UntilClickable CSS_SELECTOR v 5) (pre @ [c]))
       \<and> ((\<forall>i<length pre.
              timed_out (until_clickable env (now s + i) (submit_strategy (pre ! i)) (pre ! i) 5))
           \<and> until_clickable env (now s + length pre) (submit_strategy c) c 5 = Inr el
          \<longrightarrow> (\<exists>more. calls (snd (submit_loop env (pre @ c # post) s))
                  = calls s @ map (\<lambda>v. UntilClickable (submit_strategy v) v 5) (pre @ [c])
                      @ Click el # more)
            \<and> (action env (now s + length pre + 1) (Click el) = None
                \<longrightarrow> fst (submit_loop env (pre @ c # post) s) = Inr (Some True)
                  \<and> calls (snd (submit_loop env (pre @ c # post) s))
                      = calls s @ map (\<lambda>v. UntilClickable (submit_strategy v) v 5) (pre @ [c])
                          @ [Click el]))
       \<and> (k < length submit_selectors
           \<and> (\<forall>i<k. timed_out (until_clickable env (now s + i)
                  (submit_strategy (submit_selectors ! i)) (submit_selectors ! i) 5))
           \<and> until_clickable env (now s + k)
                  (submit_strategy (submit_selectors ! k)) (submit_selectors ! k) 5 = Inr el
           \<and> action env (now s + k + 1) (Click el) = None
          \<longrightarrow> fst (submit_login env s) = Inr True
            \<and> calls (snd (submit_login env s))
                = calls s
                  @ map (\<lambda>v. UntilClickable (submit_strategy v) v 5)
                      (take (Suc k) submit_selectors)
                  @ [Click el])"
proof (intro conjI impI; (elim conjE)?)
  assume "\<forall>i<length pre. timed_out (until_clickable env (now s + i) CSS_SELECTOR (pre ! i) 5)"
    and "until_clickable env (now s + length pre) CSS_SELECTOR c 5 = Inr el"
  with assms have run: "field_loop env (pre @ c # post) s
           = (Inr (Some el),
              s\<lparr>calls := calls s @ map (\<lambda>v. UntilClickable CSS_SELECTOR v 5) (pre @ [c]),
                out := out s @ map timeout_line pre\<rparr>)"
    by (rule field_loop_first)
  show "fst (field_loop env (pre @ c # post) s) = Inr (Some el)"
    by (simp add: run)
  show "calls (snd (field_loop env (pre @ c # post) s))
                = calls s @ map (\<lambda>v. UntilClickable CSS_SELECTOR v 5) (pre @ [c])"
    by (simp add: run)
next
  let ?s1 = "s\<lparr>calls := calls s @ map (\<lambda>v. UntilClickable (submit_strategy v) v 5) pre,
                 out := out s @ map timeout_line pre\<rparr>"
  assume pre: "\<forall>i<length pre.
      timed_out (until_clickable env (now s + i) (submit_strategy (pre ! i)) (pre ! i) 5)"
    and c: "until_clickable env (now s + length pre) (submit_strategy c) c 5 = Inr el"
  have skip: "submit_loop env (pre @ c # post) s = submit_loop env (c # post) ?s1"
    using assms pre by (rule submit_loop_skip)
  have d1: "driver ?s1" using assms by simp
  have c1: "until_clickable env (now ?s1) (submit_strategy c) c 5 = Inr el"
    using c by (simp add: now_def)
  from submit_step_found [OF d1 c1, of post]
  show "\<exists>more. calls (snd (submit_loop env (pre @ c # post) s))
                  = calls s @ map (\<lambda>v. UntilClickable (submit_strategy v) v 5) (pre @ [c])
                      @ Click el # more"
    unfolding skip by simp
  {
    assume "action env (now s + length pre + 1) (Click el) = None"
    then have "action env (Suc (now ?s1)) (Click el) = None"
      by (simp add: now_def)
    note run = submit_step_clicked [OF d1 c1 this, of post]
    show "fst (submit_loop env (pre @ c # post) s) = Inr (Some True)"
      unfolding skip run by simp
    show "calls (snd (submit_loop env (pre @ c # post) s))
                      = calls s @ map (\<lambda>v. UntilClickable (submit_strategy v) v 5) (pre @ [c])
                          @ [Click el]"
      unfolding skip run by simp
  }
next
  assume "k < length submit_selectors"
    and "\<forall>i<k. timed_out (until_clickable env (now s + i)
            (submit_strategy (submit_selectors ! i)) (submit_selectors ! i) 5)"
    and "until_clickable env (now s + k)
            (submit_strategy (submit_selectors ! k)) (submit_selectors ! k) 5 = Inr el"
    and "action env (now s + k + 1) (Click el) = None"
  note run = submit_login_first [OF assms this]
  show "fst (submit_login env s) = Inr True"
    by (simp add: run)
  show "calls (snd (submit_login env s))
                = calls s
                  @ map (\<lambda>v. UntilClickable (submit_strategy v) v 5)
                      (take (Suc k) submit_selectors)
                  @ [Click el]"
    by (simp add: run)
qed

lemma email_form_times_out:
  "v \<noteq> ''input[name='email']'' \<Longrightarrow> v \<noteq> ''input[type='submit']'' \<Longrightarrow>
   timed_out (until_clickable partial_form_env t b v timeout)"
  by (simp add: partial_form_env_def blank_env_def timed_out_def)

theorem first_matching_candidate_wins_witness:
  "driver session0
   \<and> timed_out (until_clickable partial_form_env (now session0) CSS_SELECTOR
         ''input[name='username']'' 5)
   \<and> until_clickable partial_form_env (now session0 + 1) CSS_SELECTOR
         ''input[name='email']'' 5 = Inr 7
   \<and> fst (field_loop partial_form_env username_selectors session0) = Inr (Some 7)
   \<and> calls (snd (field_loop partial_form_env username_selectors session0))
       = [UntilClickable CSS_SELECTOR ''input[name='username']'' 5,
          UntilClickable CSS_SELECTOR ''input[name='email']'' 5]
   \<and> timed_out (until_clickable partial_form_env (now session0) CSS_SELECTOR
         ''button[type='submit']'' 5)
   \<and> until_clickable partial_form_env (now session0 + 1) CSS_SELECTOR
         ''input[type='submit']'' 5 = Inr 9
   \<and> action partial_form_env (now session0 + 2) (Click 9) = None
   \<and> fst (submit_loop partial_form_env submit_selectors session0) = Inr (Some True)
   \<and> calls (snd (submit_loop partial_form_env submit_selectors session0))
       = [UntilClickable CSS_SELECTOR ''button[type='submit']'' 5,
          UntilClickable CSS_SELECTOR ''input[type='submit']'' 5, Click 9]
   \<and> fst (submit_login partial_form_env session0) = Inr True
   \<and> calls (snd (submit_login partial_form_env session0))
       = [UntilClickable CSS_SELECTOR ''button[type='submit']'' 5,
          UntilClickable CSS_SELECTOR ''input[type='submit']'' 5, Click 9]"
proof -
  note field = first_matching_candidate_wins
    [OF driver_session0, where env = partial_form_env and pre = "[''input[name='username']'']"
      and c = "''input[name='email']''" and el = 7
      and post = "[''input[type='email']'', ''input[id*='username']'', ''input[id*='email']'']"]
  note submit = first_matching_candidate_wins
    [OF driver_session0, where env = partial_form_env and pre = "[''button[type='submit']'']"
      and c = "''input[type='submit']''" and el = 9 and k = 1
      and post = "[''//button[contains(text(), 'Sign In')]'',
      ''//button[contains(text(), 'Login')]'',
      ''//button[contains(text(), 'Log In')]'',
      ''//input[contains(@value, 'Sign In')]'']"]
  have a: "action partial_form_env (now session0 + 2) (Click 9) = None"
    by (simp add: partial_form_env_def blank_env_def)
  have u: "until_clickable partial_form_env (now session0 + 1) CSS_SELECTOR
         ''input[name='email']'' 5 = Inr 7"
    "until_clickable partial_form_env (now session0 + 1) CSS_SELECTOR
         ''input[type='submit']'' 5 = Inr 9"
    by (simp_all add: partial_form_env_def blank_env_def)
  have t: "timed_out (until_clickable partial_form_env (now session0) CSS_SELECTOR
         ''input[name='username']'' 5)"
    "timed_out (until_clickable partial_form_env (now session0) CSS_SELECTOR
         ''button[type='submit']'' 5)"
    by (simp_all add: email_form_times_out)
  from field submit a u t show ?thesis
    by (simp add: driver_session0 username_selectors_def submit_selectors_def
        submit_strategy_def session0_def init_def now_def)
qed

subsection \<open>Credential entry\<close>

lemma username_loop_result:
  assumes "driver s" and "k < length username_selectors"
    and "\<forall>i<k. timed_out
           (until_clickable env (now s + i) CSS_SELECTOR (username_selectors ! i) 5)"
    and "until_clickable env (now s + k) CSS_SELECTOR (username_selectors ! k) 5 = Inr el"
  shows "field_loop env username_selectors s
           = (Inr (Some el),
              s\<lparr>calls := calls s @ map (\<lambda>v. UntilClickable CSS_SELECTOR v 5)
                                      (take (Suc k) username_selectors),
                out := out s @ map timeout_line (take k username_selectors)\<rparr>)"
proof -
  let ?pre = "take k username_selectors"
  let ?post = "drop (Suc k) username_selectors"
  have split: "username_selectors = ?pre @ username_selectors ! k # ?post"
    using assms(2) by (rule id_take_nth_drop)
  have len: "length ?pre = k" using assms(2) by simp
  have "field_loop env (?pre @ username_selectors ! k # ?post) s
          = (Inr (Some el),
             s\<lparr>calls := calls s @ map (\<lambda>v. UntilClickable CSS_SELECTOR v 5)
                                     (?pre @ [username_selectors ! k]),
               out := out s @ map timeout_line ?pre\<rparr>)"
    using assms by (intro field_loop_first) (simp_all add: len)
  then show ?thesis
    using split assms(2) by (simp add: take_Suc_conv_app_nth)
qed

lemma enter_credentials_clear_raises:
  assumes "driver s" and "k < length username_selectors"
    and "\<forall>i<k. timed_out
           (until_clickable env (now s + i) CSS_SELECTOR (username_selectors ! i) 5)"
    and "until_clickable env (now s + k) CSS_SELECTOR (username_selectors ! k) 5 = Inr el"
    and "action env (now s + k + 1) (Clear el) = Some e"
  shows "calls (snd (enter_credentials env s))
           = calls s @ map (\<lambda>v. UntilClickable CSS_SELECTOR v 5) (take (Suc k) username_selectors)
               @ [Clear el]"
  using assms(2,5) username_loop_result [OF assms(1-4)]
  by (simp add: enter_credentials_def prog_defs)

lemma enter_credentials_typed:
  assumes "driver s" and "k < length username_selectors"
    and "\<forall>i<k. timed_out
           (until_clickable env (now s + i) CSS_SELECTOR (username_selectors ! i) 5)"
    and "until_clickable env (now s + k) CSS_SELECTOR (username_selectors ! k) 5 = Inr el"
    and "action env (now s + k + 1) (Clear el) = None"
  shows "\<exists>more. calls (snd (enter_credentials env s))
           = calls s @ map (\<lambda>v. UntilClickable CSS_SELECTOR v 5) (take (Suc k) username_selectors)
               @ [Clear el, SendKeys el (username s)] @ more"
proof (cases "action env (now s + k + 2) (SendKeys el (username s))")
  case (Some e)
  with assms(2,5) username_loop_result [OF assms(1-4)] show ?thesis
    by (simp add: enter_credentials_def prog_defs)
next
  case None
  define tail where "tail =
     try_except
       (andthen (print ''Entered username'') (\<lambda>_.
            andthen (field_loop env password_selectors) (\<lambda>password_field.
            case password_field of
              None \<Rightarrow> andthen (print ''Could not find password field'') (\<lambda>_. ret False)
            | Some pf \<Rightarrow>
                andthen (perform env (Clear pf)) (\<lambda>_.
                andthen (read_self password) (\<lambda>p.
                andthen (perform env (SendKeys pf p)) (\<lambda>_.
                andthen (print ''Entered password'') (\<lambda>_.
                ret True)))))))
       (\<lambda>e. if is_Exception (cls e)
            then andthen (print (''Error entering credentials: '' @ msg e)) (\<lambda>_. ret False)
            else raise e)"
  define s3 where "s3 = s\<lparr>calls := calls s
      @ map (\<lambda>v. UntilClickable CSS_SELECTOR v 5) (take (Suc k) username_selectors)
      @ [Clear el, SendKeys el (username s)],
      out := out s @ map timeout_line (take k username_selectors)\<rparr>"
  have "enter_credentials env s = tail s3"
    using None assms(2,5) username_loop_result [OF assms(1-4)]
    by (simp add: enter_credentials_def tail_def s3_def prog_defs)
  moreover have "tracks_session env tail"
    unfolding tail_def by (intro tracks_intros tracks_field_loop; simp)
  then obtain more where "calls (snd (tail s3)) = calls s3 @ more"
    using calls_grow by blast
  ultimately show ?thesis
    by (simp add: s3_def)
qed

lemma enter_credentials_password_missing:
  assumes "driver s" and "k < length username_selectors"
    and "\<forall>i<k. timed_out
           (until_clickable env (now s + i) CSS_SELECTOR (username_selectors ! i) 5)"
    and "until_clickable env (now s + k) CSS_SELECTOR (username_selectors ! k) 5 = Inr el"
    and "action env (now s + k + 1) (Clear el) = None"
    and "action env (now s + k + 2) (SendKeys el (username s)) = None"
    and "\<forall>j<length password_selectors. timed_out
           (until_clickable env (now s + k + 3 + j) CSS_SELECTOR (password_selectors ! j) 5)"
  shows "fst (enter_credentials env s) = Inr False"
    and "calls (snd (enter_credentials env s))
           = calls s @ map (\<lambda>v. UntilClickable CSS_SELECTOR v 5) (take (Suc k) username_selectors)
               @ [Clear el, SendKeys el (username s)]
               @ map (\<lambda>v. UntilClickable CSS_SELECTOR v 5) password_selectors"
proof -
  define s3 where "s3 = s\<lparr>calls := calls s
      @ map (\<lambda>v. UntilClickable CSS_SELECTOR v 5) (take (Suc k) username_selectors)
      @ [Clear el, SendKeys el (username s)],
      out := out s @ map timeout_line (take k username_selectors) @ [''Entered username'']\<rparr>"
  have now3: "now s3 = now s + k + 3"
    using assms(2) by (simp add: s3_def now_def)
  have "driver s3" using assms(1) by (simp add: s3_def)
  moreover have "\<forall>j<length password_selectors. timed_out
           (until_clickable env (now s3 + j) CSS_SELECTOR (password_selectors ! j) 5)"
    using assms(7) by (simp add: now3)
  ultimately have pw: "field_loop env password_selectors s3
      = (Inr None, s3\<lparr>calls := calls s3 @ map (\<lambda>v. UntilClickable CSS_SELECTOR v 5) password_selectors,
                          out := out s3 @ map timeout_line password_selectors\<rparr>)"
    by (rule field_loop_none)
  have run: "enter_credentials env s =
      (Inr False, s3\<lparr>calls := calls s3 @ map (\<lambda>v. UntilClickable CSS_SELECTOR v 5) password_selectors,
                          out := out s3 @ map timeout_line password_selectors
                              @ [''Could not find password field'']\<rparr>)"
    using assms(2,5,6) username_loop_result [OF assms(1-4)] pw
    by (simp add: enter_credentials_def s3_def prog_defs)
  show "fst (enter_credentials env s) = Inr False"
    by (simp add: run)
  show "calls (snd (enter_credentials env s))
           = calls s @ map (\<lambda>v. UntilClickable CSS_SELECTOR v 5) (take (Suc k) username_selectors)
               @ [Clear el, SendKeys el (username s)]
               @ map (\<lambda>v. UntilClickable CSS_SELECTOR v 5) password_selectors"
    by (simp add: run s3_def)
qed

text \<open>
  C10. Let the username selector number \<open>k\<close> be the first that resolves, to the
  element \<open>el\<close>. The calls of \<open>enter_credentials\<close> start with the polls of the
  username selectors up to that one and the clearing of \<open>el\<close>. If the clearing raises,
  nothing else is called. Otherwise the next call types the identifier into \<open>el\<close>, and
  every later call, so every poll for a password field, comes after it. When the typing
  returns and the waits for all password selectors time out, \<open>enter_credentials\<close>
  returns False and its calls end with the password polls: nothing is called on \<open>el\<close>
  after the identifier was typed into it.
\<close>

theorem credential_entry_is_not_atomic:
  assumes "driver s" and "k < length username_selectors"
    and "\<forall>i<k. timed_out
           (until_clickable env (now s + i) CSS_SELECTOR (username_selectors ! i) 5)"
    and "until_clickable env (now s + k) CSS_SELECTOR (username_selectors ! k) 5 = Inr el"
  shows "(action env (now s + k + 1) (Clear el) \<noteq> None
          \<longrightarrow> calls (snd (enter_credentials env s))
                = calls s
                  @ map (\<lambda>v. UntilClickable CSS_SELECTOR v 5) (take (Suc k) username_selectors)
                  @ [Clear el])
       \<and> (action env (now s + k + 1) (Clear el) = None
          \<longrightarrow> (\<exists>more. calls (snd (enter_credentials env s))
                = calls s
                  @ map (\<lambda>v. UntilClickable CSS_SELECTOR v 5) (take (Suc k) username_selectors)
                  @ [Clear el, SendKeys el (username s)] @ more))
       \<and> (action env (now s + k + 1) (Clear el) = None
          \<and> action env (now s + k + 2) (SendKeys el (username s)) = None
          \<and> (\<forall>j<length password_selectors. timed_out
                (until_clickable env (now s + k + 3 + j) CSS_SELECTOR (password_selectors ! j) 5))
          \<longrightarrow> fst (enter_credentials env s) = Inr False
            \<and> calls (snd (enter_credentials env s))
                = calls s
                  @ map (\<lambda>v. UntilClickable CSS_SELECTOR v 5) (take (Suc k) username_selectors)
                  @ [Clear el, SendKeys el (username s)]
                  @ map (\<lambda>v. UntilClickable CSS_SELECTOR v 5) password_selectors)"
  using enter_credentials_clear_raises [OF assms]
    enter_credentials_typed [OF assms]
    enter_credentials_password_missing [OF assms]
  by blast

lemma stale_form_times_out:
  "v \<noteq> ''input[name='email']'' \<Longrightarrow> v \<noteq> ''input[type='submit']'' \<Longrightarrow>
   timed_out (until_clickable stale_field_env t b v timeout)"
  by (simp add: stale_field_env_def partial_form_env_def blank_env_def timed_out_def)

theorem credential_entry_is_not_atomic_witness:
  "driver session0
   \<and> timed_out (until_clickable partial_form_env (now session0) CSS_SELECTOR
         (username_selectors ! 0) 5)
   \<and> until_clickable partial_form_env (now session0 + 1) CSS_SELECTOR
         (username_selectors ! 1) 5 = Inr 7
   \<and> action partial_form_env (now session0 + 1 + 1) (Clear 7) = None
   \<and> action partial_form_env (now session0 + 1 + 2) (SendKeys 7 (username session0)) = None
   \<and> fst (enter_credentials partial_form_env session0) = Inr False
   \<and> calls (snd (enter_credentials partial_form_env session0))
       = [UntilClickable CSS_SELECTOR ''input[name='username']'' 5,
          UntilClickable CSS_SELECTOR ''input[name='email']'' 5,
          Clear 7, SendKeys 7 ''user'',
          UntilClickable CSS_SELECTOR ''input[name='password']'' 5,
          UntilClickable CSS_SELECTOR ''input[type='password']'' 5,
          UntilClickable CSS_SELECTOR ''input[id*='password']'' 5]
   \<and> action stale_field_env (now session0 + 1 + 1) (Clear 7)
       = Some (Exc WebDriverException ''stale element reference'')
   \<and> calls (snd (enter_credentials stale_field_env session0))
       = [UntilClickable CSS_SELECTOR ''input[name='username']'' 5,
          UntilClickable CSS_SELECTOR ''input[name='email']'' 5,
          Clear 7]"
proof -
  have k: "(1::nat) < length username_selectors"
    by (simp add: username_selectors_def)
  have t': "\<forall>i<1. timed_out (until_clickable stale_field_env (now session0 + i) CSS_SELECTOR
      (username_selectors ! i) 5)"
    by (simp add: username_selectors_def stale_form_times_out)
  have u': "until_clickable stale_field_env (now session0 + 1) CSS_SELECTOR
      (username_selectors ! 1) 5 = Inr 7"
    by (simp add: username_selectors_def stale_field_env_def partial_form_env_def blank_env_def)
  have a': "action stale_field_env (now session0 + 1 + 1) (Clear 7)
      = Some (Exc WebDriverException ''stale element reference'')"
    by (simp add: stale_field_env_def)
  from credential_entry_is_not_atomic [OF driver_session0 k t' u'] a'
  have stale: "calls (snd (enter_credentials stale_field_env session0))
         = calls session0
           @ map (\<lambda>v. UntilClickable CSS_SELECTOR v 5) (take (Suc 1) username_selectors)
           @ [Clear 7]"
    by simp
  have t: "\<forall>i<1. timed_out (until_clickable partial_form_env (now session0 + i) CSS_SELECTOR
      (username_selectors ! i) 5)"
    by (simp add: username_selectors_def email_form_times_out)
  have u: "until_clickable partial_form_env (now session0 + 1) CSS_SELECTOR
      (username_selectors ! 1) 5 = Inr 7"
    by (simp add: username_selectors_def partial_form_env_def blank_env_def)
  have a: "action partial_form_env (now session0 + 1 + 1) (Clear 7) = None"
    "action partial_form_env (now session0 + 1 + 2) (SendKeys 7 (username session0)) = None"
    by (simp_all add: partial_form_env_def blank_env_def)
  have p: "\<forall>j<length password_selectors. timed_out
      (until_clickable partial_form_env (now session0 + 1 + 3 + j) CSS_SELECTOR
         (password_selectors ! j) 5)"
  proof (intro allI impI)
    fix j assume "j < length password_selectors"
    then have "password_selectors ! j \<in> set password_selectors" by simp
    then show "timed_out (until_clickable partial_form_env (now session0 + 1 + 3 + j)
        CSS_SELECTOR (password_selectors ! j) 5)"
      by (intro email_form_times_out) (auto simp: password_selectors_def)
  qed
  from credential_entry_is_not_atomic [OF driver_session0 k t u] a p
  have "fst (enter_credentials partial_form_env session0) = Inr False
     \<and> calls (snd (enter_credentials partial_form_env session0))
         = calls session0
           @ map (\<lambda>v. UntilClickable CSS_SELECTOR v 5) (take (Suc 1) username_selectors)
           @ [Clear 7, SendKeys 7 (username session0)]
           @ map (\<lambda>v. UntilClickable CSS_SELECTOR v 5) password_selectors"
    by blast
  with t u a a' stale show ?thesis
    by (simp add: driver_session0 username_selectors_def password_selectors_def session0_def
        init_def)
qed

subsection \<open>Outcome check\<close>

lemma indicator_loop_eq:
  "indicator_loop u inds s =
     (if list_ex (\<lambda>marker. str_in marker u) inds
      then (Inr (Some True), s\<lparr>out := out s @ [''Login successful! Redirected to: '' @ u]\<rparr>)
      else (Inr None, s))"
  by (induction inds) (simp_all add: prog_defs)

lemma user_elements_loop_none:
  assumes "driver s"
    and "\<forall>i<length sels. not_found (find_element env (now s + i) XPATH (sels ! i))"
  shows "user_elements_loop env sels s
           = (Inr None, s\<lparr>calls := calls s @ map (FindElement XPATH) sels\<rparr>)"
  using assms
proof (induction sels arbitrary: s)
  case Nil
  then show ?case by (simp add: ret_def)
next
  case (Cons sel rest)
  let ?s1 = "s\<lparr>calls := calls s @ [FindElement XPATH sel]\<rparr>"
  from Cons.prems(2) have "not_found (find_element env (now s) XPATH sel)"
    by fastforce
  then have step: "try_except
          (andthen (call_find_element env XPATH sel) (\<lambda>element.
           andthen (print ''Found user element, login appears successful'') (\<lambda>_.
           ret (Some True))))
          (\<lambda>e. if cls e = NoSuchElementException then ret None else raise e) s = (Inr None, ?s1)"
    using Cons.prems(1) by (auto simp: prog_defs not_found_def split: sum.splits)
  have "\<forall>i<length rest. not_found (find_element env (now ?s1 + i) XPATH (rest ! i))"
  proof (intro allI impI)
    fix i assume "i < length rest"
    then have "not_found (find_element env (now s + Suc i) XPATH ((sel # rest) ! Suc i))"
      using Cons.prems(2) by (metis Suc_less_eq length_Cons)
    then show "not_found (find_element env (now ?s1 + i) XPATH (rest ! i))"
      by (simp add: now_def)
  qed
  with Cons.IH [of ?s1] Cons.prems(1)
  have "user_elements_loop env rest ?s1
          = (Inr None, ?s1\<lparr>calls := calls ?s1 @ map (FindElement XPATH) rest\<rparr>)"
    by simp
  with step show ?case
    by (simp add: andthen_def)
qed

lemma classifier_without_success_signal:
  assumes "driver s" and "action env (now s) (Sleep 3) = None"
    and "current_url env (Suc (now s)) = Inr u"
    and "\<not> list_ex (\<lambda>marker. str_in marker u) success_indicators"
    and "\<forall>i<length user_elements.
           not_found (find_element env (now s + 2 + i) XPATH (user_elements ! i))"
  shows "check_login_success env s
           = (Inr False,
              s\<lparr>calls := calls s @ [Sleep 3, CurrentUrl] @ map (FindElement XPATH) user_elements,
                out := out s @ [''Current URL: '' @ u,
                  if str_in ''sign-in'' u \<or> str_in ''login'' u
                  then ''Still on login page, login may have failed''
                  else ''Login status unclear'']\<rparr>)"
proof -
  let ?s2 = "s\<lparr>calls := calls s @ [Sleep 3, CurrentUrl], out := out s @ [''Current URL: '' @ u]\<rparr>"
  have "driver ?s2" using assms(1) by simp
  moreover have "\<forall>i<length user_elements.
           not_found (find_element env (now ?s2 + i) XPATH (user_elements ! i))"
    using assms(5) by (simp add: now_def add.commute add.left_commute)
  ultimately have loop: "user_elements_loop env user_elements ?s2
           = (Inr None, ?s2\<lparr>calls := calls ?s2 @ map (FindElement XPATH) user_elements\<rparr>)"
    by (rule user_elements_loop_none)
  show ?thesis
    using assms(1-4) loop
    by (simp add: check_login_success_def indicator_loop_eq prog_defs)
qed

lemma nothing_found_blank:
  "\<forall>i<length user_elements.
      not_found (find_element blank_env (now session0 + 2 + i) XPATH (user_elements ! i))"
  by (simp add: blank_env_def not_found_def)

lemma nothing_found_elsewhere:
  "\<forall>i<length user_elements.
      not_found (find_element elsewhere_env (now session0 + 2 + i) XPATH (user_elements ! i))"
  by (simp add: elsewhere_env_def blank_env_def not_found_def)

text \<open>
  C8. When the address read after the settle delay contains one of the success
  indicators, \<open>check_login_success\<close> returns True whatever the page holds: its only
  calls are the sleep and the reading of the address, and no element is looked up.
\<close>

theorem url_marker_short_circuits:
  assumes "driver s" and "action env (now s) (Sleep 3) = None"
    and "current_url env (Suc (now s)) = Inr u"
    and "list_ex (\<lambda>marker. str_in marker u) success_indicators"
  shows "fst (check_login_success env s) = Inr True
       \<and> calls (snd (check_login_success env s)) = calls s @ [Sleep 3, CurrentUrl]"
  using assms
  by (simp add: check_login_success_def indicator_loop_eq prog_defs)

theorem url_marker_short_circuits_witness:
  "driver session0
   \<and> action stuck_env (now session0) (Sleep 3) = None
   \<and> list_ex
        (\<lambda>marker. str_in marker
           ''https://www.dndbeyond.com/sign-in?returnUrl=https://www.dndbeyond.com/sources'')
        success_indicators
   \<and> fst (check_login_success stuck_env session0) = Inr True
   \<and> calls (snd (check_login_success stuck_env session0)) = [Sleep 3, CurrentUrl]"
proof -
  have d: "driver session0" by (rule driver_session0)
  have a: "action stuck_env (now session0) (Sleep 3) = None"
    by (simp add: stuck_env_def blank_env_def)
  have u: "current_url stuck_env (Suc (now session0))
      = Inr ''https://www.dndbeyond.com/sign-in?returnUrl=https://www.dndbeyond.com/sources''"
    by (simp add: stuck_env_def blank_env_def)
  have m: "list_ex
        (\<lambda>marker. str_in marker
           ''https://www.dndbeyond.com/sign-in?returnUrl=https://www.dndbeyond.com/sources'')
        success_indicators"
    by (simp add: success_indicators_def)
  from url_marker_short_circuits [OF d a u m] d a m show ?thesis
    by (simp add: session0_def init_def)
qed

text \<open>
  C2. The claim is what the comments of \<open>check_login_success\<close> intend (\<open>sources\<close>
  stands for the redirect to the sources page; an address still on the login page is a
  failed login), and the code misses it: \<open>indicator in current_url\<close> looks at the whole
  address, and the address the script itself opens contains \<open>sign-in\<close> and, in its
  \<open>returnUrl\<close> parameter, \<open>sources\<close>. On a page that stays there and shows no user
  element, \<open>check_login_success\<close> prints that the login was successful and returns True,
  and a whole attempt whose login the site rejected ends with \<open>authenticate\<close> returning
  True.
\<close>

theorem rejected_login_is_reported_as_success:
  "driver session0
   \<and> action stuck_env (now session0) (Sleep 3) = None
   \<and> current_url stuck_env (Suc (now session0))
       = Inr ''https://www.dndbeyond.com/sign-in?returnUrl=https://www.dndbeyond.com/sources''
   \<and> str_in ''sign-in''
        ''https://www.dndbeyond.com/sign-in?returnUrl=https://www.dndbeyond.com/sources''
   \<and> not_found (find_element stuck_env 2 XPATH (user_elements ! 0))
   \<and> not_found (find_element stuck_env 3 XPATH (user_elements ! 1))
   \<and> not_found (find_element stuck_env 4 XPATH (user_elements ! 2))
   \<and> not_found (find_element stuck_env 5 XPATH (user_elements ! 3))
   \<and> fst (check_login_success stuck_env session0) = Inr True
   \<and> last (out (snd (check_login_success stuck_env session0)))
       = ''Login successful! Redirected to: ''
         @ ''https://www.dndbeyond.com/sign-in?returnUrl=https://www.dndbeyond.com/sources''
   \<and> fst (authenticate rejected_login_env (init ''user'' ''secret'' False)) = Inr True
   \<and> last (out (snd (authenticate rejected_login_env (init ''user'' ''secret'' False))))
       = ''Authentication successful!''"
proof -
  have "check_login_success stuck_env session0
      = (Inr True,
         session0\<lparr>calls := [Sleep 3, CurrentUrl],
           out := [''Current URL: ''
               @ ''https://www.dndbeyond.com/sign-in?returnUrl=https://www.dndbeyond.com/sources'',
             ''Login successful! Redirected to: ''
               @ ''https://www.dndbeyond.com/sign-in?returnUrl=https://www.dndbeyond.com/sources'']\<rparr>)"
    by (simp add: check_login_success_def indicator_loop_eq prog_defs session0_def init_def
        stuck_env_def blank_env_def success_indicators_def)
  moreover have "fst (authenticate rejected_login_env (init ''user'' ''secret'' False)) = Inr True"
    by code_simp
  moreover have "last (out (snd (authenticate rejected_login_env (init ''user'' ''secret'' False))))
      = ''Authentication successful!''"
    by code_simp
  ultimately show ?thesis
    by (simp add: driver_session0 stuck_env_def blank_env_def not_found_def)
qed

text \<open>
  Where the address holds \<open>sign-in\<close> and none of the success indicators, and none of
  the user elements is found, the check does report the failure.
\<close>

lemma still_on_sign_in_is_failure:
  assumes "driver s" and "action env (now s) (Sleep 3) = None"
    and "current_url env (Suc (now s)) = Inr u"
    and "str_in ''sign-in'' u"
    and "\<not> list_ex (\<lambda>marker. str_in marker u) success_indicators"
    and "\<forall>i<length user_elements.
           not_found (find_element env (now s + 2 + i) XPATH (user_elements ! i))"
  shows "fst (check_login_success env s) = Inr False
       \<and> last (out (snd (check_login_success env s)))
           = ''Still on login page, login may have failed''"
  using classifier_without_success_signal [OF assms(1-3,5,6)] assms(4) by simp

text \<open>
  C3, as the claim states it, fails: \<open>check_login_success\<close> returns a boolean, and on
  a page that matches no marker and shows no user element it returns False, the value it
  also returns for a page still on the sign-in address.
\<close>

theorem ambiguous_outcome_counterexample:
  "\<not> str_in ''sign-in'' ''https://www.dndbeyond.com/account''
   \<and> \<not> list_ex (\<lambda>marker. str_in marker ''https://www.dndbeyond.com/account'')
         success_indicators
   \<and> current_url elsewhere_env (Suc (now session0)) = Inr ''https://www.dndbeyond.com/account''
   \<and> not_found (find_element elsewhere_env 2 XPATH (user_elements ! 0))
   \<and> not_found (find_element elsewhere_env 3 XPATH (user_elements ! 1))
   \<and> not_found (find_element elsewhere_env 4 XPATH (user_elements ! 2))
   \<and> not_found (find_element elsewhere_env 5 XPATH (user_elements ! 3))
   \<and> fst (check_login_success elsewhere_env session0) = Inr False
   \<and> str_in ''sign-in'' ''https://www.dndbeyond.com/sign-in''
   \<and> current_url blank_env (Suc (now session0)) = Inr ''https://www.dndbeyond.com/sign-in''
   \<and> fst (check_login_success blank_env session0) = Inr False"
proof -
  have n: "\<not> list_ex (\<lambda>marker. str_in marker ''https://www.dndbeyond.com/account'')
      success_indicators"
    by (simp add: success_indicators_def)
  have n': "\<not> list_ex (\<lambda>marker. str_in marker ''https://www.dndbeyond.com/sign-in'')
      success_indicators"
    by (simp add: success_indicators_def)
  have "fst (check_login_success elsewhere_env session0) = Inr False"
    by (subst classifier_without_success_signal
          [where u = "''https://www.dndbeyond.com/account''", OF _ _ _ n nothing_found_elsewhere])
       (simp_all add: driver_session0 elsewhere_env_def blank_env_def)
  moreover have "fst (check_login_success blank_env session0) = Inr False"
    by (subst classifier_without_success_signal
          [where u = "''https://www.dndbeyond.com/sign-in''", OF _ _ _ n' nothing_found_blank])
       (simp_all add: driver_session0 blank_env_def)
  ultimately show ?thesis
    using n by (simp add: elsewhere_env_def blank_env_def not_found_def)
qed

text \<open>
  C3, amended. When the address contains neither \<open>sign-in\<close> nor a success
  indicator and none of the user elements is found, \<open>check_login_success\<close> returns
  False, as it does for a failed login; only the printed line tells the cases apart:
  \<open>Login status unclear\<close>, unless the address contains \<open>login\<close>.
\<close>

theorem unmatched_page_returns_false:
  assumes "driver s" and "action env (now s) (Sleep 3) = None"
    and "current_url env (Suc (now s)) = Inr u"
    and "\<not> str_in ''sign-in'' u"
    and "\<not> list_ex (\<lambda>marker. str_in marker u) success_indicators"
    and "\<forall>i<length user_elements.
           not_found (find_element env (now s + 2 + i) XPATH (user_elements ! i))"
  shows "fst (check_login_success env s) = Inr False
       \<and> last (out (snd (check_login_success env s)))
           = (if str_in ''login'' u then ''Still on login page, login may have failed''
              else ''Login status unclear'')"
  using classifier_without_success_signal [OF assms(1-3,5,6)] assms(4) by simp

theorem unmatched_page_returns_false_witness:
  "driver session0
   \<and> action elsewhere_env (now session0) (Sleep 3) = None
   \<and> current_url elsewhere_env (Suc (now session0)) = Inr ''https://www.dndbeyond.com/account''
   \<and> \<not> str_in ''sign-in'' ''https://www.dndbeyond.com/account''
   \<and> fst (check_login_success elsewhere_env session0) = Inr False
   \<and> last (out (snd (check_login_success elsewhere_env session0))) = ''Login status unclear''"
proof -
  have d: "driver session0" by (rule driver_session0)
  have a: "action elsewhere_env (now session0) (Sleep 3) = None"
    by (simp add: elsewhere_env_def blank_env_def)
  have u: "current_url elsewhere_env (Suc (now session0))
      = Inr ''https://www.dndbeyond.com/account''"
    by (simp add: elsewhere_env_def blank_env_def)
  have m: "\<not> str_in ''sign-in'' ''https://www.dndbeyond.com/account''"
    by simp
  have n: "\<not> list_ex (\<lambda>marker. str_in marker ''https://www.dndbeyond.com/account'')
      success_indicators"
    by (simp add: success_indicators_def)
  have f: "\<forall>i<length user_elements.
      not_found (find_element elsewhere_env (now session0 + 2 + i) XPATH (user_elements ! i))"
    by (simp add: elsewhere_env_def blank_env_def not_found_def)
  have l: "\<not> str_in ''login'' ''https://www.dndbeyond.com/account''"
    by simp
  from unmatched_page_returns_false [OF d a u m n f] d a u m l show ?thesis
    by simp
qed

end
